theory Spec2Isabelle
  imports Main "HOL-Library.Log_Nat"
begin

section \<open>JavaScript numbers\<close>

text \<open>
  Every number of the program is an IEEE-754 binary64 value.  A finite nonzero double is
  kept as the rational it denotes (\<open>Fin q\<close>); \<open>Fin 0\<close> is \<open>+0\<close> and \<open>NZero\<close> is \<open>-0\<close>.
  The result of an arithmetic operation on finite operands is the exact rational result
  rounded to the nearest double, ties to even (\<open>rnd\<close>), as IEEE-754 prescribes for
  \<open>+\<close>, \<open>-\<close>, \<open>*\<close>, \<open>/\<close> and the square root.
\<close>

datatype num = NaN | PInf | NInf | NZero | Fin rat

text \<open>\<open>flog2 a\<close> is \<open>\<lfloor>log\<^sub>2 a\<rfloor>\<close> for a positive rational \<open>a\<close>.\<close>

definition flog2 :: "rat \<Rightarrow> int" where
  "flog2 a = (if 1 \<le> a then int (floorlog 2 (nat \<lfloor>a\<rfloor>)) - 1
              else - int (floorlog 2 (nat (\<lceil>1 / a\<rceil> - 1))))"

text \<open>Rounding a non-negative rational to the nearest integer, ties to the even one.\<close>

definition rne :: "rat \<Rightarrow> int" where
  "rne r = (let f = \<lfloor>r\<rfloor> in
            if r - of_int f < 1 / 2 then f
            else if 1 / 2 < r - of_int f then f + 1
            else if even f then f else f + 1)"

text \<open>
  Rounding to binary64.  A positive rational is rounded to a multiple of \<open>2\<^sup>e\<close>, where \<open>e\<close>
  leaves 53 significant bits and is at least \<open>-1074\<close> (the least exponent is \<open>-1022\<close>; below
  it the spacing stays \<open>2\<^sup>-\<^sup>1\<^sup>0\<^sup>7\<^sup>4\<close>, the subnormal range).  The result overflows to an
  infinity when the rounded magnitude reaches \<open>2\<^sup>1\<^sup>0\<^sup>2\<^sup>4\<close>, and a zero result keeps the sign
  of the exact value.
\<close>

definition ulp_exp :: "rat \<Rightarrow> int" where
  "ulp_exp a = max (flog2 a) (- 1022) - 52"

definition round_mag :: "rat \<Rightarrow> rat" where
  "round_mag a = of_int (rne (a / power_int 2 (ulp_exp a))) * power_int 2 (ulp_exp a)"

definition rnd :: "rat \<Rightarrow> num" where
  "rnd q = (if q = 0 then Fin 0
            else if 2 ^ 1024 \<le> round_mag \<bar>q\<bar> then (if 0 < q then PInf else NInf)
            else if round_mag \<bar>q\<bar> = 0 then (if 0 < q then Fin 0 else NZero)
            else Fin (if 0 < q then round_mag \<bar>q\<bar> else - round_mag \<bar>q\<bar>))"

fun isFinite :: "num \<Rightarrow> bool" where
  "isFinite NaN = False"
| "isFinite PInf = False"
| "isFinite NInf = False"
| "isFinite NZero = True"
| "isFinite (Fin q) = True"

fun is_inf :: "num \<Rightarrow> bool" where
  "is_inf PInf = True"
| "is_inf NInf = True"
| "is_inf x = False"

fun is_zero :: "num \<Rightarrow> bool" where
  "is_zero NZero = True"
| "is_zero (Fin q) = (q = 0)"
| "is_zero x = False"

text \<open>The sign bit (of a number that is not NaN).\<close>

fun negative :: "num \<Rightarrow> bool" where
  "negative NInf = True"
| "negative NZero = True"
| "negative (Fin q) = (q < 0)"
| "negative x = False"

text \<open>The rational value of a finite number.\<close>

fun rval :: "num \<Rightarrow> rat" where
  "rval (Fin q) = q"
| "rval x = 0"

fun fneg :: "num \<Rightarrow> num" where
  "fneg NaN = NaN"
| "fneg PInf = NInf"
| "fneg NInf = PInf"
| "fneg NZero = Fin 0"
| "fneg (Fin q) = (if q = 0 then NZero else Fin (- q))"

text \<open>\<open>x + y\<close>\<close>

fun fadd :: "num \<Rightarrow> num \<Rightarrow> num" where
  "fadd NaN y = NaN"
| "fadd x NaN = NaN"
| "fadd PInf NInf = NaN"
| "fadd NInf PInf = NaN"
| "fadd PInf y = PInf"
| "fadd x PInf = PInf"
| "fadd NInf y = NInf"
| "fadd x NInf = NInf"
| "fadd NZero y = y"
| "fadd x NZero = x"
| "fadd (Fin a) (Fin b) = rnd (a + b)"

text \<open>\<open>x - y\<close>, which IEEE-754 defines as \<open>x + (-y)\<close>\<close>

definition fsub :: "num \<Rightarrow> num \<Rightarrow> num" where
  "fsub x y = fadd x (fneg y)"

text \<open>\<open>x * y\<close>\<close>

definition fmul :: "num \<Rightarrow> num \<Rightarrow> num" where
  "fmul x y =
     (if x = NaN \<or> y = NaN then NaN
      else if is_inf x \<or> is_inf y then
        (if is_zero x \<or> is_zero y then NaN
         else if negative x \<noteq> negative y then NInf else PInf)
      else if is_zero x \<or> is_zero y then
        (if negative x \<noteq> negative y then NZero else Fin 0)
      else rnd (rval x * rval y))"

text \<open>\<open>x / y\<close>\<close>

definition fdiv :: "num \<Rightarrow> num \<Rightarrow> num" where
  "fdiv x y =
     (if x = NaN \<or> y = NaN then NaN
      else if is_inf x then
        (if is_inf y then NaN else if negative x \<noteq> negative y then NInf else PInf)
      else if is_inf y then (if negative x \<noteq> negative y then NZero else Fin 0)
      else if is_zero y then
        (if is_zero x then NaN else if negative x \<noteq> negative y then NInf else PInf)
      else if is_zero x then (if negative x \<noteq> negative y then NZero else Fin 0)
      else rnd (rval x / rval y))"

text \<open>\<open>x < y\<close>, \<open>x <= y\<close>, \<open>x > y\<close>, \<open>x >= y\<close>: false as soon as an operand is NaN.\<close>

definition flt :: "num \<Rightarrow> num \<Rightarrow> bool" where
  "flt x y = (x \<noteq> NaN \<and> y \<noteq> NaN \<and>
     (if x = PInf \<or> y = NInf then False
      else if x = NInf \<or> y = PInf then True
      else rval x < rval y))"

definition fle :: "num \<Rightarrow> num \<Rightarrow> bool" where
  "fle x y = (x \<noteq> NaN \<and> y \<noteq> NaN \<and>
     (if x = NInf \<or> y = PInf then True
      else if x = PInf \<or> y = NInf then False
      else rval x \<le> rval y))"

definition fgt :: "num \<Rightarrow> num \<Rightarrow> bool" where
  "fgt x y = flt y x"

definition fge :: "num \<Rightarrow> num \<Rightarrow> bool" where
  "fge x y = fle y x"

text \<open>\<open>Math.ceil\<close>\<close>

fun fceil :: "num \<Rightarrow> num" where
  "fceil (Fin q) = (if \<lceil>q\<rceil> = 0 \<and> q < 0 then NZero else Fin (of_int \<lceil>q\<rceil>))"
| "fceil x = x"

text \<open>
  \<open>Math.sqrt\<close>, correctly rounded: \<open>isqrt\<close> is the integer square root, and the
  argument is scaled by a power of four so that the integer root has more bits than a
  double and a half; a root that is not exact is replaced by a point strictly between the
  two integers around it, which rounds as the root does.
\<close>

fun isqrt :: "nat \<Rightarrow> nat" where
  "isqrt n = (if n < 2 then n
              else (let r = 2 * isqrt (n div 4)
                    in if (r + 1) * (r + 1) \<le> n then r + 1 else r))"

declare isqrt.simps [simp del]

definition sqrt_rat :: "rat \<Rightarrow> num" where
  "sqrt_rat a =
     (let s = 55 - flog2 a div 2;
          r = isqrt (nat \<lfloor>a * power_int 4 s\<rfloor>)
      in if of_nat (r * r) = a * power_int 4 s then rnd (of_nat r / power_int 2 s)
         else rnd ((of_nat r + 1 / 2) / power_int 2 s))"

fun fsqrt :: "num \<Rightarrow> num" where
  "fsqrt NaN = NaN"
| "fsqrt PInf = PInf"
| "fsqrt NInf = NaN"
| "fsqrt NZero = NZero"
| "fsqrt (Fin a) = (if a < 0 then NaN else if a = 0 then Fin 0 else sqrt_rat a)"


section \<open>Data model (\<open>src/types/simulation.ts\<close>)\<close>

record TrajectoryPoint =
  pt_t :: num
  pt_state :: "num list"

record Trajectory =
  points :: "TrajectoryPoint list"
  variables :: "string list"

text \<open>
  The text of a number in a message.  \<open>Shortest x\<close> is the text of \<^verbatim>\<open>String(x)\<close>, which a
  template literal \<^verbatim>\<open>${x}\<close> inserts: the shortest decimal that reads back as \<open>x\<close>.  That
  text tells \<open>x\<close>, except that \<open>-0\<close> is printed as \<open>0\<close>.  \<open>Hundredths neg n\<close> is the text
  of \<open>n / 100\<close> with exactly two decimals, after a minus sign if \<open>neg\<close>.
\<close>

datatype numtext = Shortest num | Hundredths bool nat

definition to_string :: "num \<Rightarrow> numtext" where
  "to_string x = Shortest (if x = NZero then Fin 0 else x)"

text \<open>
  \<^verbatim>\<open>x.toFixed(2)\<close>: a number that is not finite, or of magnitude \<open>10\<^sup>2\<^sup>1\<close> or more, is
  printed as \<^verbatim>\<open>String(x)\<close>; any other as the integer \<open>n\<close> for which \<open>n / 100\<close> is nearest
  to the magnitude (the larger one at a tie), after the sign.
\<close>

fun toFixed2 :: "num \<Rightarrow> numtext" where
  "toFixed2 (Fin q) =
     (if 10 ^ 21 \<le> \<bar>q\<bar> then to_string (Fin q)
      else Hundredths (q < 0) (nat \<lfloor>\<bar>q\<bar> * 100 + 1 / 2\<rfloor>))"
| "toFixed2 NZero = Hundredths False 0"
| "toFixed2 x = to_string x"

text \<open>\<^verbatim>\<open>names.join(', ')\<close>\<close>

fun join :: "string \<Rightarrow> string list \<Rightarrow> string" where
  "join sep [] = []"
| "join sep [x] = x"
| "join sep (x # y # rest) = x @ sep @ join sep (y # rest)"

text \<open>
  An \<open>Error\<close> is thrown with a message string.  Each constructor stands for one message
  template of \<open>src/lib/ode-solver.ts\<close>, its arguments being the texts the template is
  filled with (an array length is a natural number, printed in decimal).
\<close>

datatype message =
    VectorLengthMismatch nat nat
      \<comment> \<open>\<^verbatim>\<open>Vector length mismatch: ${a.length} !== ${b.length}\<close>\<close>
  | DtNotFinite
      \<comment> \<open>\<^verbatim>\<open>Time step dt must be a finite number\<close>\<close>
  | DtNotPositive
      \<comment> \<open>\<^verbatim>\<open>Time step dt must be positive\<close>\<close>
  | DtLargerThanTMax
      \<comment> \<open>\<^verbatim>\<open>Time step dt cannot be larger than maximum time tMax\<close>\<close>
  | TMaxNotFinite
      \<comment> \<open>\<^verbatim>\<open>Maximum time tMax must be a finite number\<close>\<close>
  | TMaxNotPositive
      \<comment> \<open>\<^verbatim>\<open>Maximum time tMax must be positive\<close>\<close>
  | InitialConditionsLength nat nat
      \<comment> \<open>\<^verbatim>\<open>Initial conditions length (..) must match number of state variables (..)\<close>\<close>
  | InitialConditionsNotFinite
      \<comment> \<open>\<^verbatim>\<open>All initial conditions must be finite numbers\<close>\<close>
  | MissingParameters string
      \<comment> \<open>\<^verbatim>\<open>Missing required parameters: ${missingParams.join(', ')}\<close>\<close>
  | ParameterNotFinite string
      \<comment> \<open>\<^verbatim>\<open>Parameter ${param.name} must be a finite number\<close>\<close>
  | ParameterOutOfRange string numtext numtext numtext
      \<comment> \<open>\<^verbatim>\<open>Parameter ${param.name} (${value}) is outside valid range [${param.min}, ${param.max}]\<close>\<close>
  | InitialInvalid
      \<comment> \<open>\<^verbatim>\<open>Initial conditions contain NaN or Infinity\<close>\<close>
  | NumericalInstability numtext
      \<comment> \<open>\<^verbatim>\<open>Numerical instability detected at t=${t.toFixed(2)}. ...\<close>\<close>
  | StepsExceeded
      \<comment> \<open>\<^verbatim>\<open>Maximum number of integration steps exceeded\<close>\<close>
  | InvalidArrayLength
      \<comment> \<open>the message of the \<open>RangeError\<close> that \<open>push\<close> throws on a full array\<close>

datatype SolverResult = Success Trajectory | Failure message

record Parameter =
  name :: string
  label :: string
  min_p :: num
  max_p :: num
  step :: num
  default_p :: num

record SolverConfig =
  dt :: num
  tMax :: num
  initialConditions :: "num list"
  cfg_parameters :: "string \<rightharpoonup> num"

record ODESystem =
  sys_id :: string
  sys_name :: string
  description :: string
  stateVariables :: "string list"
  parameters :: "Parameter list"
  defaultInitialConditions :: "num list"
  equations :: "num list \<Rightarrow> (string \<rightharpoonup> num) \<Rightarrow> num list"

section \<open>Vector utility functions\<close>

text \<open>A thrown \<open>Error\<close> is the left injection of the result.\<close>

definition add :: "num list \<Rightarrow> num list \<Rightarrow> message + num list" where
  "add a b = (if length a \<noteq> length b then Inl (VectorLengthMismatch (length a) (length b))
              else Inr (map (\<lambda>i. fadd (a ! i) (b ! i)) [0..<length a]))"

definition scale :: "num list \<Rightarrow> num \<Rightarrow> num list" where
  "scale v scalar = map (\<lambda>val. fmul val scalar) v"

definition subtract :: "num list \<Rightarrow> num list \<Rightarrow> message + num list" where
  "subtract a b = (if length a \<noteq> length b then Inl (VectorLengthMismatch (length a) (length b))
                   else Inr (map (\<lambda>i. fsub (a ! i) (b ! i)) [0..<length a]))"

definition dot :: "num list \<Rightarrow> num list \<Rightarrow> message + num" where
  "dot a b = (if length a \<noteq> length b then Inl (VectorLengthMismatch (length a) (length b))
              else Inr (foldl (\<lambda>sum i. fadd sum (fmul (a ! i) (b ! i))) (Fin 0) [0..<length a]))"

definition magnitude :: "num list \<Rightarrow> num" where
  "magnitude v = fsqrt (foldl (\<lambda>sum val. fadd sum (fmul val val)) (Fin 0) v)"

section \<open>The RK4 step\<close>

definition rk4Step ::
  "(num list \<Rightarrow> (string \<rightharpoonup> num) \<Rightarrow> num list) \<Rightarrow> num list \<Rightarrow> (string \<rightharpoonup> num) \<Rightarrow> num
     \<Rightarrow> message + num list" where
  "rk4Step f state params h =
     (let k1 = f state params in
      (case add state (scale k1 (fdiv h (Fin 2))) of
         Inl e \<Rightarrow> Inl e
       | Inr s2 \<Rightarrow>
      (let k2 = f s2 params in
      (case add state (scale k2 (fdiv h (Fin 2))) of
         Inl e \<Rightarrow> Inl e
       | Inr s3 \<Rightarrow>
      (let k3 = f s3 params in
      (case add state (scale k3 h) of
         Inl e \<Rightarrow> Inl e
       | Inr s4 \<Rightarrow>
      (let k4 = f s4 params in
      (case add k1 (scale k2 (Fin 2)) of
         Inl e \<Rightarrow> Inl e
       | Inr w1 \<Rightarrow>
      (case add (scale k3 (Fin 2)) k4 of
         Inl e \<Rightarrow> Inl e
       | Inr w2 \<Rightarrow>
      (case add w1 w2 of
         Inl e \<Rightarrow> Inl e
       | Inr weightedSum \<Rightarrow> add state (scale weightedSum (fdiv h (Fin 6)))))))))))))"

section \<open>Validation\<close>

text \<open>
  The parameter object of a configuration is a plain object (an object literal, or what
  \<open>JSON.parse\<close> returns): the map holds its own properties, and its prototype is
  \<open>Object.prototype\<close>, from which it inherits the properties named below.
\<close>

definition object_prototype_names :: "string list" where
  "object_prototype_names =
     [''constructor'', ''__defineGetter__'', ''__defineSetter__'', ''hasOwnProperty'',
      ''__lookupGetter__'', ''__lookupSetter__'', ''isPrototypeOf'', ''propertyIsEnumerable'',
      ''toString'', ''valueOf'', ''__proto__'', ''toLocaleString'']"

text \<open>\<^verbatim>\<open>name in parameters\<close>: an own property or an inherited one.\<close>

definition has_property :: "(string \<rightharpoonup> num) \<Rightarrow> string \<Rightarrow> bool" where
  "has_property ps n = (n \<in> dom ps \<or> n \<in> set object_prototype_names)"

text \<open>
  The number that \<open>isFinite\<close> and the arithmetic of the program make of what
  \<^verbatim>\<open>parameters[name]\<close> reads: the value of an own property; NaN for \<open>undefined\<close> (no such
  property) and for an inherited property, whose value is a function or, for
  \<open>__proto__\<close>, an object.
\<close>

definition lookup_num :: "(string \<rightharpoonup> num) \<Rightarrow> string \<Rightarrow> num" where
  "lookup_num ps n = (case ps n of None \<Rightarrow> NaN | Some v \<Rightarrow> v)"

text \<open>The loop \<^verbatim>\<open>for (const param of system.parameters)\<close> of \<open>validateSolverConfig\<close>.\<close>

fun validateParameterValues :: "(string \<rightharpoonup> num) \<Rightarrow> Parameter list \<Rightarrow> message option" where
  "validateParameterValues ps [] = None"
| "validateParameterValues ps (param # rest) =
     (let value = lookup_num ps (name param) in
      if \<not> isFinite value then Some (ParameterNotFinite (name param))
      else if flt value (min_p param) \<or> fgt value (max_p param)
        then Some (ParameterOutOfRange (name param) (to_string value)
                     (to_string (min_p param)) (to_string (max_p param)))
      else validateParameterValues ps rest)"

text \<open>
  The two checks \<^verbatim>\<open>Array.isArray(initialConditions)\<close> and
  \<^verbatim>\<open>typeof parameters !== 'object'\<close> cannot fail on a \<open>SolverConfig\<close> and have no branch
  here.  \<open>None\<close> is the source's \<open>null\<close>.
\<close>

definition validateSolverConfig :: "SolverConfig \<Rightarrow> ODESystem \<Rightarrow> message option" where
  "validateSolverConfig config system =
     (if \<not> isFinite (dt config) then Some DtNotFinite
      else if fle (dt config) (Fin 0) then Some DtNotPositive
      else if fgt (dt config) (tMax config) then Some DtLargerThanTMax
      else if \<not> isFinite (tMax config) then Some TMaxNotFinite
      else if fle (tMax config) (Fin 0) then Some TMaxNotPositive
      else if length (initialConditions config) \<noteq> length (stateVariables system)
        then Some (InitialConditionsLength (length (initialConditions config))
                     (length (stateVariables system)))
      else if list_ex (\<lambda>val. \<not> isFinite val) (initialConditions config)
        then Some InitialConditionsNotFinite
      else (let missingParams =
                  filter (\<lambda>n. \<not> has_property (cfg_parameters config) n)
                    (map name (parameters system))
            in if 0 < length missingParams
               then Some (MissingParameters (join '', '' missingParams))
               else validateParameterValues (cfg_parameters config) (parameters system)))"

definition hasInvalidValues :: "num list \<Rightarrow> bool" where
  "hasInvalidValues state = list_ex (\<lambda>val. \<not> isFinite val) state"

section \<open>The solver\<close>

text \<open>
  An array has at most \<open>2\<^sup>3\<^sup>2 - 1\<close> elements: \<open>push\<close> on an array of that length throws a
  \<open>RangeError\<close> when it sets the new length.  (An engine that runs out of memory before
  that is outside this model.)  The state vectors never grow; the array \<open>points\<close> does.
\<close>

definition max_array_length :: nat where
  "max_array_length = 2 ^ 32 - 1"

text \<open>
  The \<open>while\<close> loop of \<open>solveODE\<close> on its variables \<open>(t, state, stepCount, points)\<close>.  It
  is a partial function: \<open>None\<close> is a loop that never exits.  \<open>Some (Inl m)\<close> is a throw
  from inside the loop, \<open>Some (Inr v)\<close> the variables at the exit.  The \<open>catch\<close> clause
  rethrows every \<open>Error\<close> unchanged, a \<open>RangeError\<close> being one; the derivative function is
  pure and total, as the specification's data model and the built-in systems have it, so
  that nothing else is thrown by \<open>rk4Step\<close>.
\<close>

type_synonym loop_vars = "num \<times> num list \<times> num \<times> TrajectoryPoint list"

partial_function (option) integrate ::
  "(num list \<Rightarrow> (string \<rightharpoonup> num) \<Rightarrow> num list) \<Rightarrow> (string \<rightharpoonup> num) \<Rightarrow> num \<Rightarrow> num \<Rightarrow> num
     \<Rightarrow> loop_vars \<Rightarrow> (message + loop_vars) option" where
  "integrate f params h tmax maxSteps vars =
     (case vars of (t, state, stepCount, pts) \<Rightarrow>
      if flt t tmax \<and> flt stepCount maxSteps then
        (case rk4Step f state params h of
           Inl e \<Rightarrow> Some (Inl e)
         | Inr state' \<Rightarrow>
             if hasInvalidValues state'
             then Some (Inl (NumericalInstability (toFixed2 (fadd t h))))
             else if max_array_length \<le> length pts then Some (Inl InvalidArrayLength)
             else integrate f params h tmax maxSteps
                    (fadd t h, state', fadd stepCount (Fin 1),
                     pts @ [\<lparr>pt_t = fadd t h, pt_state = state'\<rparr>]))
      else Some (Inr vars))"

definition solveODE :: "ODESystem \<Rightarrow> SolverConfig \<Rightarrow> (message + Trajectory) option" where
  "solveODE system config =
     (case validateSolverConfig config system of
        Some validationError \<Rightarrow> Some (Inl validationError)
      | None \<Rightarrow>
          (let state = initialConditions config in
           if hasInvalidValues state then Some (Inl InitialInvalid)
           else
             (let maxSteps = fadd (fceil (fdiv (tMax config) (dt config))) (Fin 1) in
              case integrate (equations system) (cfg_parameters config) (dt config)
                     (tMax config) maxSteps
                     (Fin 0, state, Fin 0, [\<lparr>pt_t = Fin 0, pt_state = state\<rparr>]) of
                None \<Rightarrow> None
              | Some (Inl e) \<Rightarrow> Some (Inl e)
              | Some (Inr (t, state', stepCount, pts)) \<Rightarrow>
                  if fge stepCount maxSteps then Some (Inl StepsExceeded)
                  else Some (Inr \<lparr>points = pts, variables = stateVariables system\<rparr>))))"

definition solveODESafe :: "ODESystem \<Rightarrow> SolverConfig \<Rightarrow> SolverResult option" where
  "solveODESafe system config =
     (case solveODE system config of
        None \<Rightarrow> None
      | Some (Inr trajectory) \<Rightarrow> Some (Success trajectory)
      | Some (Inl errorMessage) \<Rightarrow> Some (Failure errorMessage))"

section \<open>The built-in systems (\<open>src/lib/systems\<close>)\<close>

text \<open>
  Destructuring an array reads \<open>undefined\<close> past its end, which the arithmetic turns into
  NaN.  A decimal literal denotes the double nearest to it.
\<close>

definition elem :: "num list \<Rightarrow> nat \<Rightarrow> num" where
  "elem xs i = (if i < length xs then xs ! i else NaN)"

definition lorenz_equations :: "num list \<Rightarrow> (string \<rightharpoonup> num) \<Rightarrow> num list" where
  "lorenz_equations state params =
     (let x = elem state 0; y = elem state 1; z = elem state 2;
          sigma = lookup_num params ''sigma'';
          rho = lookup_num params ''rho'';
          beta = lookup_num params ''beta''
      in [fmul sigma (fsub y x),
          fsub (fmul x (fsub rho z)) y,
          fsub (fmul x y) (fmul beta z)])"

definition lorenzSystem :: ODESystem where
  "lorenzSystem =
     \<lparr>sys_id = ''lorenz'',
      sys_name = ''Lorenz Attractor'',
      description = ''A chaotic system exhibiting the famous butterfly attractor'',
      stateVariables = [''x'', ''y'', ''z''],
      parameters =
        [\<lparr>name = ''sigma'', label = [CHR 0xCF, CHR 0x83] @ '' (Sigma)'',
          min_p = Fin 0, max_p = Fin 20, step = rnd (1 / 10), default_p = Fin 10\<rparr>,
         \<lparr>name = ''rho'', label = [CHR 0xCF, CHR 0x81] @ '' (Rho)'',
          min_p = Fin 0, max_p = Fin 50, step = rnd (1 / 2), default_p = Fin 28\<rparr>,
         \<lparr>name = ''beta'', label = [CHR 0xCE, CHR 0xB2] @ '' (Beta)'',
          min_p = Fin 0, max_p = Fin 10, step = rnd (1 / 10),
          default_p = fdiv (Fin 8) (Fin 3)\<rparr>],
      defaultInitialConditions = [Fin 1, Fin 1, Fin 1],
      equations = lorenz_equations\<rparr>"

definition lotka_volterra_equations :: "num list \<Rightarrow> (string \<rightharpoonup> num) \<Rightarrow> num list" where
  "lotka_volterra_equations state params =
     (let prey = elem state 0; predator = elem state 1;
          alpha = lookup_num params ''alpha'';
          beta = lookup_num params ''beta'';
          delta = lookup_num params ''delta'';
          gamma = lookup_num params ''gamma''
      in [fsub (fmul alpha prey) (fmul (fmul beta prey) predator),
          fsub (fmul (fmul delta prey) predator) (fmul gamma predator)])"

definition lotkaVolterraSystem :: ODESystem where
  "lotkaVolterraSystem =
     \<lparr>sys_id = ''lotka-volterra'',
      sys_name = ''Lotka-Volterra'',
      description = ''Predator-prey population dynamics model'',
      stateVariables = [''Prey'', ''Predator''],
      parameters =
        [\<lparr>name = ''alpha'', label = [CHR 0xCE, CHR 0xB1] @ '' (Prey Growth Rate)'',
          min_p = Fin 0, max_p = Fin 3, step = rnd (1 / 10), default_p = rnd (3 / 2)\<rparr>,
         \<lparr>name = ''beta'', label = [CHR 0xCE, CHR 0xB2] @ '' (Predation Rate)'',
          min_p = Fin 0, max_p = Fin 2, step = rnd (1 / 10), default_p = Fin 1\<rparr>,
         \<lparr>name = ''delta'', label = [CHR 0xCE, CHR 0xB4] @ '' (Predator Efficiency)'',
          min_p = Fin 0, max_p = Fin 2, step = rnd (1 / 10), default_p = Fin 1\<rparr>,
         \<lparr>name = ''gamma'', label = [CHR 0xCE, CHR 0xB3] @ '' (Predator Death Rate)'',
          min_p = Fin 0, max_p = Fin 5, step = rnd (1 / 10), default_p = Fin 3\<rparr>],
      defaultInitialConditions = [Fin 10, Fin 5],
      equations = lotka_volterra_equations\<rparr>"

text \<open>The default parameter values of a system, as the dashboard builds them.\<close>

definition default_parameters :: "ODESystem \<Rightarrow> (string \<rightharpoonup> num)" where
  "default_parameters system = map_of (map (\<lambda>p. (name p, default_p p)) (parameters system))"

text \<open>
  Three one-variable systems for concrete runs: exponential decay \<open>dx/dt = -x\<close> (the smooth
  test system of the specification), \<open>dx/dt = 1/x\<close>, which is singular at \<open>x = 0\<close>, and a
  system whose derivative is not a number.
\<close>

definition reciprocal_equations :: "num list \<Rightarrow> (string \<rightharpoonup> num) \<Rightarrow> num list" where
  "reciprocal_equations state params = map (\<lambda>x. fdiv (Fin 1) x) state"

definition decay_equations :: "num list \<Rightarrow> (string \<rightharpoonup> num) \<Rightarrow> num list" where
  "decay_equations state params = map fneg state"

definition nan_equations :: "num list \<Rightarrow> (string \<rightharpoonup> num) \<Rightarrow> num list" where
  "nan_equations state params = map (\<lambda>x. NaN) state"

definition test_system ::
  "(num list \<Rightarrow> (string \<rightharpoonup> num) \<Rightarrow> num list) \<Rightarrow> ODESystem" where
  "test_system f =
     \<lparr>sys_id = ''test'', sys_name = ''Test'', description = ''One state variable'',
      stateVariables = [''x''], parameters = [], defaultInitialConditions = [Fin 1],
      equations = f\<rparr>"

text \<open>
  A system of two state variables whose derivative tells \<open>-0\<close> from \<open>0\<close> (as \<open>Object.is\<close>
  does) and is zero at three of the four states made of zeros: started at \<open>(-0, -0)\<close>, an
  RK4 step of any positive size evaluates it at \<open>(-0, -0)\<close>, \<open>(0, -0)\<close> and \<open>(-0, 0)\<close> and
  arrives at \<open>(0, 0)\<close>, where the derivative is infinite.
\<close>

definition signed_zero_equations :: "num list \<Rightarrow> (string \<rightharpoonup> num) \<Rightarrow> num list" where
  "signed_zero_equations state params =
     (if state = [NZero, NZero] then [Fin 0, NZero]
      else if state = [Fin 0, NZero] then [NZero, Fin 0]
      else if state = [NZero, Fin 0] then [NZero, NZero]
      else map (\<lambda>x. PInf) state)"

definition signed_zero_system :: ODESystem where
  "signed_zero_system =
     \<lparr>sys_id = ''test'', sys_name = ''Test'', description = ''Two state variables'',
      stateVariables = [''x'', ''y''], parameters = [],
      defaultInitialConditions = [NZero, NZero],
      equations = signed_zero_equations\<rparr>"


text \<open>
  The configuration the dashboard (\<open>SimulationDashboard\<close>) passes to \<open>solveODE\<close> before the
  user changes anything: the default initial conditions and parameter values of the
  system, with a time step and a horizon.
\<close>

definition default_config :: "ODESystem \<Rightarrow> num \<Rightarrow> num \<Rightarrow> SolverConfig" where
  "default_config system h tmax =
     \<lparr>dt = h, tMax = tmax, initialConditions = defaultInitialConditions system,
      cfg_parameters = default_parameters system\<rparr>"

text \<open>
  The five points of the run of the Lotka-Volterra system from its default state with
  \<open>dt = 0.15\<close> and \<open>tMax = 0.45\<close>.
\<close>

definition lv_points :: "TrajectoryPoint list" where
  "lv_points =
     [\<lparr>pt_t = Fin 0, pt_state = [Fin 10, Fin 5]\<rparr>,
      \<lparr>pt_t = Fin (5404319552844595 / 36028797018963968), pt_state = [Fin (4635037182671117 / 1125899906842624), Fin (2571321144838343 / 281474976710656)]\<rparr>,
      \<lparr>pt_t = Fin (5404319552844595 / 18014398509481984), pt_state = [Fin (3094708058507251 / 2251799813685248), Fin (4696195755915185 / 562949953421312)]\<rparr>,
      \<lparr>pt_t = Fin (2026619832316723 / 4503599627370496), pt_state = [Fin (20644904440379 / 35184372088832), Fin (854741732312225 / 140737488355328)]\<rparr>,
      \<lparr>pt_t = Fin (5404319552844595 / 9007199254740992), pt_state = [Fin (6192127656615559 / 18014398509481984), Fin (2329628825671285 / 562949953421312)]\<rparr>]"

section \<open>Notions of the specification\<close>

text \<open>
  Total element-wise vector operations, for the RK4 formula
  \<open>next = state + (dt/6)\<cdot>(k1 + 2\<cdot>k2 + 2\<cdot>k3 + k4)\<close> of the specification.
\<close>

definition vadd :: "num list \<Rightarrow> num list \<Rightarrow> num list" where
  "vadd a b = map (\<lambda>(x, y). fadd x y) (zip a b)"

definition smul :: "num \<Rightarrow> num list \<Rightarrow> num list" where
  "smul c v = map (\<lambda>x. fmul c x) v"

definition rk4_formula ::
  "(num list \<Rightarrow> (string \<rightharpoonup> num) \<Rightarrow> num list) \<Rightarrow> num list \<Rightarrow> (string \<rightharpoonup> num) \<Rightarrow> num
     \<Rightarrow> num list" where
  "rk4_formula f state params h =
     (let k1 = f state params;
          k2 = f (vadd state (smul (fdiv h (Fin 2)) k1)) params;
          k3 = f (vadd state (smul (fdiv h (Fin 2)) k2)) params;
          k4 = f (vadd state (smul h k3)) params
      in vadd state (smul (fdiv h (Fin 6))
           (vadd (vadd k1 (smul (Fin 2) k2)) (vadd (smul (Fin 2) k3) k4))))"

text \<open>
  The seven rules of the configuration validator, the rule a message reports, and the
  first rule of a priority order that a configuration violates.  Rule 3 counts as violated
  when \<open>dt > tMax\<close>.
\<close>

datatype rule =
    DtRule             \<comment> \<open>1: \<open>dt\<close> finite and \<open>dt > 0\<close>\<close>
  | TMaxRule           \<comment> \<open>2: \<open>tMax\<close> finite and \<open>tMax > 0\<close>\<close>
  | DtLeTMaxRule       \<comment> \<open>3: \<open>dt \<le> tMax\<close>\<close>
  | LengthRule         \<comment> \<open>4: \<open>initialState\<close> has one element for each state variable\<close>
  | FiniteStateRule    \<comment> \<open>5: every element of \<open>initialState\<close> finite\<close>
  | PresentRule        \<comment> \<open>6: every declared parameter name has a value\<close>
  | BoundsRule         \<comment> \<open>7: every parameter value finite and within its bounds\<close>







text \<open>A time value of the loop: a non-negative double, or \<open>+\<infinity>\<close>.\<close>

definition nonneg_double :: "num \<Rightarrow> bool" where
  "nonneg_double t = (t = PInf \<or> (isFinite t \<and> t \<noteq> NZero \<and> 0 \<le> rval t \<and> rnd (rval t) = t))"

text \<open>Point \<open>q\<close> comes from point \<open>p\<close> by one RK4 step of size \<open>h\<close>.\<close>

definition rk4_successor ::
  "(num list \<Rightarrow> (string \<rightharpoonup> num) \<Rightarrow> num list) \<Rightarrow> (string \<rightharpoonup> num) \<Rightarrow> num
     \<Rightarrow> TrajectoryPoint \<Rightarrow> TrajectoryPoint \<Rightarrow> bool" where
  "rk4_successor f params h p q =
     (pt_t q = fadd (pt_t p) h \<and> rk4Step f (pt_state p) params h = Inr (pt_state q))"

text \<open>The iteration cap of \<open>solveODE\<close>, \<^verbatim>\<open>Math.ceil(tMax / dt) + 1\<close>.\<close>

definition max_steps :: "SolverConfig \<Rightarrow> num" where
  "max_steps config = fadd (fceil (fdiv (tMax config) (dt config))) (Fin 1)"

text \<open>The variables of the loop of \<open>solveODE\<close> when it is entered.\<close>

definition initial_vars :: "SolverConfig \<Rightarrow> loop_vars" where
  "initial_vars config =
     (Fin 0, initialConditions config, Fin 0,
      [\<lparr>pt_t = Fin 0, pt_state = initialConditions config\<rparr>])"

text \<open>
  \<open>reaches f params h tmax maxSteps v v'\<close>: started with the variables \<open>v\<close>, the loop of
  \<open>solveODE\<close> has the variables \<open>v'\<close> after some number of complete iterations, each of
  which passed the loop condition, produced a finite state and stored its point.
\<close>

inductive reaches ::
  "(num list \<Rightarrow> (string \<rightharpoonup> num) \<Rightarrow> num list) \<Rightarrow> (string \<rightharpoonup> num) \<Rightarrow> num \<Rightarrow> num \<Rightarrow> num
     \<Rightarrow> loop_vars \<Rightarrow> loop_vars \<Rightarrow> bool"
  for f params h tmax maxSteps where
    reaches_start: "reaches f params h tmax maxSteps v v"
  | reaches_step:
      "reaches f params h tmax maxSteps v (t, state, stepCount, pts) \<Longrightarrow>
       flt t tmax \<Longrightarrow> flt stepCount maxSteps \<Longrightarrow>
       rk4Step f state params h = Inr state' \<Longrightarrow> \<not> hasInvalidValues state' \<Longrightarrow>
       length pts < max_array_length \<Longrightarrow>
       reaches f params h tmax maxSteps v
         (fadd t h, state', fadd stepCount (Fin 1),
          pts @ [\<lparr>pt_t = fadd t h, pt_state = state'\<rparr>])"



section \<open>The solver on a store\<close>

text \<open>
  For the claims about sharing and mutation the arrays and parameter objects live in a
  store: a list of cells, an address being an index.  Allocation appends a cell.  The
  array operations of the program allocate as JavaScript does: \<open>a.map(...)\<close> and the
  spread \<open>[...a]\<close> each create a new array.  The derivative function is taken to be pure,
  as the specification's data model and both built-in systems have it: it reads the
  state array and the parameter object it is given and returns a newly created array.
  The validator only reads its arguments (its temporary arrays of names are not kept in
  the store).
\<close>

datatype cell = Arr "num list" | Obj "string \<rightharpoonup> num"

type_synonym heap = "cell list"

type_synonym addr = nat

definition alloc :: "cell \<Rightarrow> heap \<Rightarrow> heap \<times> addr" where
  "alloc c hp = (hp @ [c], length hp)"

definition arr :: "heap \<Rightarrow> addr \<Rightarrow> num list" where
  "arr hp a = (if a < length hp then (case hp ! a of Arr xs \<Rightarrow> xs | Obj m \<Rightarrow> []) else [])"

definition obj :: "heap \<Rightarrow> addr \<Rightarrow> (string \<rightharpoonup> num)" where
  "obj hp a = (if a < length hp then (case hp ! a of Arr xs \<Rightarrow> Map.empty | Obj m \<Rightarrow> m)
               else Map.empty)"

text \<open>
  The assignment \<^verbatim>\<open>a[i] = v\<close>, by which a caller could later change an array in place
  (an index past the end extends the array, the holes reading as \<open>undefined\<close>), and the
  assignment \<^verbatim>\<open>o[k] = v\<close> to a parameter object.
\<close>

definition store_elem :: "heap \<Rightarrow> addr \<Rightarrow> nat \<Rightarrow> num \<Rightarrow> heap" where
  "store_elem hp a i v =
     (if a < length hp then
        (case hp ! a of
           Arr xs \<Rightarrow> hp[a := Arr (if i < length xs then xs[i := v]
                                   else xs @ replicate (i - length xs) NaN @ [v])]
         | Obj m \<Rightarrow> hp)
      else hp)"

definition store_key :: "heap \<Rightarrow> addr \<Rightarrow> string \<Rightarrow> num \<Rightarrow> heap" where
  "store_key hp a k v =
     (if a < length hp then
        (case hp ! a of Arr xs \<Rightarrow> hp | Obj m \<Rightarrow> hp[a := Obj (m(k \<mapsto> v))])
      else hp)"

text \<open>A computation on the store that may throw, and sequencing.\<close>

type_synonym 'a on_heap = "heap \<Rightarrow> heap \<times> (message + 'a)"

definition hbind :: "'a on_heap \<Rightarrow> ('a \<Rightarrow> 'b on_heap) \<Rightarrow> 'b on_heap" where
  "hbind m k hp = (case m hp of (hp', Inl e) \<Rightarrow> (hp', Inl e) | (hp', Inr x) \<Rightarrow> k x hp')"

definition new_array :: "num list \<Rightarrow> addr on_heap" where
  "new_array xs hp = (case alloc (Arr xs) hp of (hp', a) \<Rightarrow> (hp', Inr a))"

definition add_h :: "addr \<Rightarrow> addr \<Rightarrow> addr on_heap" where
  "add_h a b hp =
     (if length (arr hp a) \<noteq> length (arr hp b)
      then (hp, Inl (VectorLengthMismatch (length (arr hp a)) (length (arr hp b))))
      else new_array (map (\<lambda>i. fadd (arr hp a ! i) (arr hp b ! i)) [0..<length (arr hp a)]) hp)"

definition scale_h :: "addr \<Rightarrow> num \<Rightarrow> addr on_heap" where
  "scale_h v scalar hp = new_array (map (\<lambda>val. fmul val scalar) (arr hp v)) hp"

text \<open>The spread \<^verbatim>\<open>[...a]\<close>.\<close>

definition copy_h :: "addr \<Rightarrow> addr on_heap" where
  "copy_h a hp = new_array (arr hp a) hp"

text \<open>A call of the derivative function.\<close>

definition call_h ::
  "(num list \<Rightarrow> (string \<rightharpoonup> num) \<Rightarrow> num list) \<Rightarrow> addr \<Rightarrow> addr \<Rightarrow> addr on_heap" where
  "call_h f state params hp = new_array (f (arr hp state) (obj hp params)) hp"

definition rk4Step_h ::
  "(num list \<Rightarrow> (string \<rightharpoonup> num) \<Rightarrow> num list) \<Rightarrow> addr \<Rightarrow> addr \<Rightarrow> num \<Rightarrow> addr on_heap" where
  "rk4Step_h f state params h =
     hbind (call_h f state params) (\<lambda>k1.
     hbind (scale_h k1 (fdiv h (Fin 2))) (\<lambda>d1.
     hbind (add_h state d1) (\<lambda>s2.
     hbind (call_h f s2 params) (\<lambda>k2.
     hbind (scale_h k2 (fdiv h (Fin 2))) (\<lambda>d2.
     hbind (add_h state d2) (\<lambda>s3.
     hbind (call_h f s3 params) (\<lambda>k3.
     hbind (scale_h k3 h) (\<lambda>d3.
     hbind (add_h state d3) (\<lambda>s4.
     hbind (call_h f s4 params) (\<lambda>k4.
     hbind (scale_h k2 (Fin 2)) (\<lambda>e2.
     hbind (add_h k1 e2) (\<lambda>w1.
     hbind (scale_h k3 (Fin 2)) (\<lambda>e3.
     hbind (add_h e3 k4) (\<lambda>w2.
     hbind (add_h w1 w2) (\<lambda>weightedSum.
     hbind (scale_h weightedSum (fdiv h (Fin 6))) (\<lambda>d.
     add_h state d))))))))))))))))"

text \<open>A trajectory point whose state is an array of the store.\<close>

record hpoint =
  hp_t :: num
  hp_state :: addr

type_synonym hloop_vars = "num \<times> addr \<times> num \<times> hpoint list"

partial_function (option) integrate_h ::
  "(num list \<Rightarrow> (string \<rightharpoonup> num) \<Rightarrow> num list) \<Rightarrow> addr \<Rightarrow> num \<Rightarrow> num \<Rightarrow> num
     \<Rightarrow> hloop_vars \<Rightarrow> heap \<Rightarrow> (heap \<times> (message + hloop_vars)) option" where
  "integrate_h f params h tmax maxSteps vars hp =
     (case vars of (t, state, stepCount, pts) \<Rightarrow>
      if flt t tmax \<and> flt stepCount maxSteps then
        (case rk4Step_h f state params h hp of
           (hp1, Inl e) \<Rightarrow> Some (hp1, Inl e)
         | (hp1, Inr state') \<Rightarrow>
             if hasInvalidValues (arr hp1 state')
             then Some (hp1, Inl (NumericalInstability (toFixed2 (fadd t h))))
             else if max_array_length \<le> length pts then Some (hp1, Inl InvalidArrayLength)
             else (case alloc (Arr (arr hp1 state')) hp1 of (hp2, c) \<Rightarrow>
                     integrate_h f params h tmax maxSteps
                       (fadd t h, state', fadd stepCount (Fin 1),
                        pts @ [\<lparr>hp_t = fadd t h, hp_state = c\<rparr>]) hp2))
      else Some (hp, Inr vars))"

text \<open>A \<open>SolverConfig\<close> whose array and parameter object are in the store.\<close>

record HConfig =
  h_dt :: num
  h_tMax :: num
  h_initialConditions :: addr
  h_parameters :: addr

definition read_config :: "heap \<Rightarrow> HConfig \<Rightarrow> SolverConfig" where
  "read_config hp hc =
     \<lparr>dt = h_dt hc, tMax = h_tMax hc, initialConditions = arr hp (h_initialConditions hc),
      cfg_parameters = obj hp (h_parameters hc)\<rparr>"

definition solveODE_h ::
  "ODESystem \<Rightarrow> HConfig \<Rightarrow> heap \<Rightarrow> (heap \<times> (message + hpoint list)) option" where
  "solveODE_h system hc hp =
     (case validateSolverConfig (read_config hp hc) system of
        Some validationError \<Rightarrow> Some (hp, Inl validationError)
      | None \<Rightarrow>
          (case alloc (Arr (arr hp (h_initialConditions hc))) hp of (hp1, state) \<Rightarrow>
           if hasInvalidValues (arr hp1 state) then Some (hp1, Inl InitialInvalid)
           else
             (case alloc (Arr (arr hp1 state)) hp1 of (hp2, c) \<Rightarrow>
              (let maxSteps = fadd (fceil (fdiv (h_tMax hc) (h_dt hc))) (Fin 1) in
               case integrate_h (equations system) (h_parameters hc) (h_dt hc) (h_tMax hc)
                      maxSteps (Fin 0, state, Fin 0, [\<lparr>hp_t = Fin 0, hp_state = c\<rparr>]) hp2 of
                 None \<Rightarrow> None
               | Some (hp3, Inl e) \<Rightarrow> Some (hp3, Inl e)
               | Some (hp3, Inr (t, state', stepCount, pts)) \<Rightarrow>
                   if fge stepCount maxSteps then Some (hp3, Inl StepsExceeded)
                   else Some (hp3, Inr pts)))))"

text \<open>
  The store and the variables of \<open>solveODE\<close> at the moment its loop is left (or what it
  threw up to there): the statements of \<open>solveODE\<close> before the final check of the step
  count.
\<close>

definition solveODE_loop_h ::
  "ODESystem \<Rightarrow> HConfig \<Rightarrow> heap \<Rightarrow> (heap \<times> (message + hloop_vars)) option" where
  "solveODE_loop_h system hc hp =
     (case validateSolverConfig (read_config hp hc) system of
        Some validationError \<Rightarrow> Some (hp, Inl validationError)
      | None \<Rightarrow>
          (case alloc (Arr (arr hp (h_initialConditions hc))) hp of (hp1, state) \<Rightarrow>
           if hasInvalidValues (arr hp1 state) then Some (hp1, Inl InitialInvalid)
           else
             (case alloc (Arr (arr hp1 state)) hp1 of (hp2, c) \<Rightarrow>
              (let maxSteps = fadd (fceil (fdiv (h_tMax hc) (h_dt hc))) (Fin 1) in
               integrate_h (equations system) (h_parameters hc) (h_dt hc) (h_tMax hc)
                      maxSteps (Fin 0, state, Fin 0, [\<lparr>hp_t = Fin 0, hp_state = c\<rparr>]) hp2))))"

text \<open>The values a result on the store stands for.\<close>

definition points_of :: "heap \<Rightarrow> hpoint list \<Rightarrow> TrajectoryPoint list" where
  "points_of hp pts = map (\<lambda>p. \<lparr>pt_t = hp_t p, pt_state = arr hp (hp_state p)\<rparr>) pts"

definition outcome_of :: "ODESystem \<Rightarrow> heap \<times> (message + hpoint list) \<Rightarrow> message + Trajectory" where
  "outcome_of system r =
     (case r of
        (hp, Inl e) \<Rightarrow> Inl e
      | (hp, Inr pts) \<Rightarrow> Inr \<lparr>points = points_of hp pts, variables = stateVariables system\<rparr>)"

text \<open>
  \<open>refines hp res v\<close>: a computation started in the store \<open>hp\<close> ended with \<open>res\<close>; it only
  added cells to the store, and it threw what \<open>v\<close> throws or returned a new array holding
  the value of \<open>v\<close>.
\<close>

definition extends :: "heap \<Rightarrow> heap \<Rightarrow> bool" where
  "extends hp hp' = (length hp \<le> length hp' \<and> take (length hp) hp' = hp)"

definition refines :: "heap \<Rightarrow> heap \<times> (message + addr) \<Rightarrow> message + num list \<Rightarrow> bool" where
  "refines hp res v =
     (case res of
        (hp', Inl e) \<Rightarrow> extends hp hp' \<and> v = Inl e
      | (hp', Inr c) \<Rightarrow> extends hp hp' \<and> length hp \<le> c \<and> c < length hp' \<and> v = Inr (arr hp' c))"

text \<open>The values of the loop variables, and what the loop keeps true of its addresses.\<close>

definition vars_of :: "heap \<Rightarrow> hloop_vars \<Rightarrow> loop_vars" where
  "vars_of hp vars = (case vars of (t, state, stepCount, pts) \<Rightarrow>
     (t, arr hp state, stepCount, points_of hp pts))"

definition separate :: "nat \<Rightarrow> heap \<Rightarrow> hloop_vars \<Rightarrow> bool" where
  "separate base hp vars = (case vars of (t, state, stepCount, pts) \<Rightarrow>
     state < length hp \<and> base \<le> state \<and> distinct (map hp_state pts) \<and>
     list_all (\<lambda>p. base \<le> hp_state p \<and> hp_state p < length hp \<and> hp_state p \<noteq> state) pts)"

section \<open>Evaluating the arithmetic\<close>

lemma floor_rat_numeral [simp]:
  "\<lfloor>numeral a / numeral b :: rat\<rfloor> = numeral a div numeral b"
  using floor_divide_of_int_eq [of "numeral a" "numeral b", where ?'a = rat] by simp

lemma ceiling_rat_numeral [simp]:
  "\<lceil>numeral a / numeral b :: rat\<rceil> = - (- numeral a div numeral b)"
  using ceiling_divide_eq_div [of "numeral a" "numeral b"] by (simp add: ceiling_def)

lemmas float_eval = rnd_def round_mag_def ulp_exp_def flog2_def compute_floorlog rne_def fmul_def fdiv_def fsub_def

lemma fmul_commute: "fmul x y = fmul y x"
  by (auto simp: fmul_def mult.commute)

section \<open>Properties of the rounding\<close>

lemma two_powi_pos [simp]: "0 < power_int (2::rat) k"
  by (simp add: power_int_def)

lemma nat_pow_le_rat: "2 ^ k \<le> (n::nat) \<Longrightarrow> (2::rat) ^ k \<le> of_nat n"
proof -
  assume "2 ^ k \<le> n"
  then have "(of_nat (2 ^ k) :: rat) \<le> of_nat n" by (simp only: of_nat_le_iff)
  then show ?thesis by simp
qed

lemma nat_less_pow_rat: "(n::nat) < 2 ^ k \<Longrightarrow> (of_nat n :: rat) + 1 \<le> 2 ^ k"
proof -
  assume "n < 2 ^ k"
  then have "Suc n \<le> 2 ^ k" by simp
  then have "(of_nat (Suc n) :: rat) \<le> of_nat (2 ^ k)" by (simp only: of_nat_le_iff)
  then show ?thesis by simp
qed

lemma floorlog_pos_bounds:
  assumes "0 < n"
  shows "1 \<le> floorlog 2 n" "(2::rat) ^ (floorlog 2 n - 1) \<le> of_nat n"
    "(of_nat n :: rat) + 1 \<le> 2 ^ floorlog 2 n"
proof -
  have bb: "2 ^ (floorlog 2 n - 1) \<le> n" "n < 2 ^ floorlog 2 n"
    using floorlog_bounds [of n 2] assms by auto
  show "1 \<le> floorlog 2 n" using bb(2) assms by (cases "floorlog 2 n") auto
  show "(2::rat) ^ (floorlog 2 n - 1) \<le> of_nat n" using bb(1) by (rule nat_pow_le_rat)
  show "(of_nat n :: rat) + 1 \<le> 2 ^ floorlog 2 n" using bb(2) by (rule nat_less_pow_rat)
qed

lemma powi_int_minus_one: "1 \<le> b \<Longrightarrow> power_int (2::rat) (int b - 1) = 2 ^ (b - 1)"
  by (cases b) (simp_all add: power_int_def)

lemma powi_neg_int: "power_int (2::rat) (- int b) = 1 / 2 ^ b"
  by (simp add: power_int_def field_simps)

lemma powi_neg_int_plus_one: "1 \<le> b \<Longrightarrow> power_int (2::rat) (- int b + 1) = 1 / 2 ^ (b - 1)"
proof -
  assume "1 \<le> b"
  then obtain c where c: "b = Suc c" by (cases b) auto
  have "- int b + 1 = - int c" using c by simp
  then show ?thesis using c by (simp add: powi_neg_int)
qed


lemma flog2_bounds:
  assumes "0 < a"
  shows "power_int 2 (flog2 a) \<le> a \<and> a < power_int 2 (flog2 a + 1)"
proof (cases "1 \<le> a")
  case True
  define n where "n = nat \<lfloor>a\<rfloor>"
  have fl: "1 \<le> \<lfloor>a\<rfloor>" using True by linarith
  have n0: "0 < n" using fl by (simp add: n_def)
  have "(of_nat n :: rat) = of_int \<lfloor>a\<rfloor>"
    using fl by (simp add: n_def)
  then have n: "of_nat n \<le> a" "a < of_nat n + 1"
    by linarith+
  note b = floorlog_pos_bounds [OF n0]
  have f: "flog2 a = int (floorlog 2 n) - 1" using True by (simp add: flog2_def n_def)
  have p2: "power_int (2::rat) (int (floorlog 2 n) - 1 + 1) = 2 ^ floorlog 2 n"
    by (simp add: power_int_def)
  show ?thesis
    unfolding f p2 powi_int_minus_one [OF b(1)] using n b(2,3) by linarith
next
  case False
  define c where "c = \<lceil>1 / a\<rceil>"
  define n where "n = nat (c - 1)"
  have x: "1 < 1 / a" using assms False by simp
  then have c2: "2 \<le> c" unfolding c_def by linarith
  have cx: "of_int c - 1 < 1 / a" "1 / a \<le> of_int c"
    unfolding c_def by linarith+
  have n0: "0 < n" using c2 by (simp add: n_def)
  have nr: "(of_nat n :: rat) = of_int c - 1"
    using c2 by (simp add: n_def)
  note b = floorlog_pos_bounds [OF n0]
  have f: "flog2 a = - int (floorlog 2 n)" using False by (simp add: flog2_def n_def c_def)
  have u: "1 / a \<le> 2 ^ floorlog 2 n" using b(3) nr cx by linarith
  have l: "(2::rat) ^ (floorlog 2 n - 1) < 1 / a" using b(2) nr cx by linarith
  have "1 / 2 ^ floorlog 2 n \<le> a"
    using u assms by (simp add: field_simps)
  moreover have "a < 1 / 2 ^ (floorlog 2 n - 1)"
    using l assms by (simp add: field_simps)
  ultimately show ?thesis
    unfolding f powi_neg_int powi_neg_int_plus_one [OF b(1)] by simp
qed

lemma two_powi_less_iff: "power_int (2::rat) k < power_int 2 l \<longleftrightarrow> k < l"
  using power_int_strict_increasing [of k l "2::rat"] power_int_increasing [of l k "2::rat"]
  by (cases "k < l") auto

lemma two_powi_le_iff: "power_int (2::rat) k \<le> power_int 2 l \<longleftrightarrow> k \<le> l"
  using power_int_strict_increasing [of l k "2::rat"] power_int_increasing [of k l "2::rat"]
  by (cases "k \<le> l") auto

lemma flog2_unique:
  assumes "power_int 2 k \<le> a" "a < power_int 2 (k + 1)"
  shows "flog2 a = k"
proof -
  have a: "0 < a" using assms(1) two_powi_pos [of k] by linarith
  note b = flog2_bounds [OF a]
  have "power_int (2::rat) k < power_int 2 (flog2 a + 1)" using assms b by linarith
  then have 1: "k < flog2 a + 1" by (simp only: two_powi_less_iff)
  have "power_int (2::rat) (flog2 a) < power_int 2 (k + 1)" using assms b by linarith
  then have 2: "flog2 a < k + 1" by (simp only: two_powi_less_iff)
  from 1 2 show ?thesis by simp
qed

lemma flog2_mono: "0 < a \<Longrightarrow> a \<le> b \<Longrightarrow> flog2 a \<le> flog2 b"
proof -
  assume a: "0 < a" "a \<le> b"
  then have b: "0 < b" by simp
  have "power_int (2::rat) (flog2 a) < power_int 2 (flog2 b + 1)"
    using flog2_bounds [OF a(1)] flog2_bounds [OF b] a(2) by linarith
  then show ?thesis by (simp only: two_powi_less_iff)
qed

lemma rne_of_int [simp]: "rne (of_int n) = n"
  by (simp add: rne_def)

lemma rne_lower: "\<lfloor>r\<rfloor> \<le> rne r"
  by (simp add: rne_def Let_def)

lemma rne_upper: "rne r \<le> \<lfloor>r\<rfloor> + 1"
  by (simp add: rne_def Let_def)

lemma rne_mono: "r \<le> r' \<Longrightarrow> rne r \<le> rne r'"
proof -
  assume le: "r \<le> r'"
  then have f: "\<lfloor>r\<rfloor> \<le> \<lfloor>r'\<rfloor>" by (rule floor_mono)
  show ?thesis
  proof (cases "\<lfloor>r\<rfloor> = \<lfloor>r'\<rfloor>")
    case True
    then show ?thesis using le by (auto simp: rne_def Let_def)
  next
    case False
    then have "\<lfloor>r\<rfloor> + 1 \<le> \<lfloor>r'\<rfloor>" using f by simp
    then show ?thesis using rne_upper [of r] rne_lower [of r'] by linarith
  qed
qed

lemma rne_ge: "of_int n \<le> r \<Longrightarrow> n \<le> rne r"
  using rne_mono [of "of_int n" r] by simp

lemma rne_le: "r \<le> of_int n \<Longrightarrow> rne r \<le> n"
  using rne_mono [of r "of_int n"] by simp

lemma rne_nonneg: "0 \<le> r \<Longrightarrow> 0 \<le> rne r"
  using rne_ge [of 0 r] by simp

lemma ulp_exp_ge: "- 1074 \<le> ulp_exp a"
  by (simp add: ulp_exp_def)

lemma ulp_exp_mono: "0 < a \<Longrightarrow> a \<le> b \<Longrightarrow> ulp_exp a \<le> ulp_exp b"
  using flog2_mono [of a b] by (simp add: ulp_exp_def)

lemma powi_add: "power_int (2::rat) (k + l) = power_int 2 k * power_int 2 l"
  by (simp add: power_int_add)

lemma powi_53: "power_int (2::rat) (k + 53) = 2 ^ 53 * power_int 2 k"
  by (simp add: power_int_add)

lemma powi_52: "power_int (2::rat) (k + 52) = 2 ^ 52 * power_int 2 k"
  by (simp add: power_int_add)

lemma scaled_lt:
  assumes "0 < a"
  shows "a < 2 ^ 53 * power_int 2 (ulp_exp a)"
proof -
  have "flog2 a + 1 \<le> ulp_exp a + 53" by (simp add: ulp_exp_def)
  then have "power_int (2::rat) (flog2 a + 1) \<le> power_int 2 (ulp_exp a + 53)"
    by (simp only: two_powi_le_iff)
  then have "power_int (2::rat) (flog2 a + 1) \<le> 2 ^ 53 * power_int 2 (ulp_exp a)"
    by (simp only: powi_53)
  then show ?thesis using flog2_bounds [OF assms] by linarith
qed

lemma scaled_ge:
  assumes "0 < a" "- 1022 \<le> flog2 a"
  shows "2 ^ 52 * power_int 2 (ulp_exp a) \<le> a"
proof -
  have "ulp_exp a + 52 = flog2 a" using assms(2) by (simp add: ulp_exp_def)
  then show ?thesis using flog2_bounds [OF assms(1)] powi_52 [of "ulp_exp a"] by simp
qed

lemma round_mag_nonneg: "0 \<le> a \<Longrightarrow> 0 \<le> round_mag a"
  by (simp add: round_mag_def rne_nonneg)

lemma round_mag_le:
  assumes "0 < a"
  shows "round_mag a \<le> 2 ^ 53 * power_int 2 (ulp_exp a)"
proof -
  have "a / power_int 2 (ulp_exp a) \<le> of_int (2 ^ 53)"
    using scaled_lt [OF assms] by (simp add: field_simps)
  then have "rne (a / power_int 2 (ulp_exp a)) \<le> 2 ^ 53" by (rule rne_le)
  then have "(of_int (rne (a / power_int 2 (ulp_exp a))) :: rat) \<le> of_int (2 ^ 53)"
    by (simp only: of_int_le_iff)
  then show ?thesis by (simp add: round_mag_def)
qed

lemma round_mag_ge:
  assumes "0 < a" "- 1022 \<le> flog2 a"
  shows "2 ^ 52 * power_int 2 (ulp_exp a) \<le> round_mag a"
proof -
  have "of_int (2 ^ 52) \<le> a / power_int 2 (ulp_exp a)"
    using scaled_ge [OF assms] by (simp add: field_simps)
  then have "2 ^ 52 \<le> rne (a / power_int 2 (ulp_exp a))" by (rule rne_ge)
  then have "(of_int (2 ^ 52) :: rat) \<le> of_int (rne (a / power_int 2 (ulp_exp a)))"
    by (simp only: of_int_le_iff)
  then show ?thesis by (simp add: round_mag_def)
qed

lemma round_mag_mono:
  assumes "0 < a" "a \<le> b"
  shows "round_mag a \<le> round_mag b"
proof (cases "ulp_exp a = ulp_exp b")
  case True
  have "a / power_int 2 (ulp_exp b) \<le> b / power_int 2 (ulp_exp b)"
    using assms(2) by (simp add: divide_right_mono)
  then have "rne (a / power_int 2 (ulp_exp b)) \<le> rne (b / power_int 2 (ulp_exp b))"
    by (rule rne_mono)
  then show ?thesis by (simp add: round_mag_def True)
next
  case False
  have b: "0 < b" using assms by simp
  have lt: "ulp_exp a < ulp_exp b" using ulp_exp_mono [OF assms] False by simp
  then have n: "- 1022 \<le> flog2 b"
    using ulp_exp_ge [of a] by (auto simp: ulp_exp_def max_def split: if_splits)
  have "ulp_exp a + 53 \<le> ulp_exp b + 52" using lt by simp
  then have "power_int (2::rat) (ulp_exp a + 53) \<le> power_int 2 (ulp_exp b + 52)"
    by (simp only: two_powi_le_iff)
  then have "2 ^ 53 * power_int (2::rat) (ulp_exp a) \<le> 2 ^ 52 * power_int 2 (ulp_exp b)"
    by (simp only: powi_53 powi_52)
  then show ?thesis using round_mag_le [OF assms(1)] round_mag_ge [OF b n] by linarith
qed

lemma round_mag_exact_lt:
  assumes "0 < m" "m < 2 ^ 53" "- 1074 \<le> e"
  shows "round_mag (of_int m * power_int 2 e) = of_int m * power_int 2 e"
proof -
  define v :: rat where "v = of_int m * power_int 2 e"
  have v0: "0 < v" using assms(1) by (simp add: v_def)
  have "(of_int m :: rat) < of_int (2 ^ 53)" using assms(2) by (simp only: of_int_less_iff)
  then have "v < 2 ^ 53 * power_int 2 e" by (simp add: v_def)
  then have "power_int 2 (flog2 v) < power_int (2::rat) (e + 53)"
    using flog2_bounds [OF v0] by (simp add: powi_53)
  then have "flog2 v < e + 53" by (simp only: two_powi_less_iff)
  then have le: "ulp_exp v \<le> e" using assms(3) by (simp add: ulp_exp_def)
  define u where "u = ulp_exp v"
  define d where "d = nat (e - u)"
  have e: "e = u + int d" using le by (simp add: d_def u_def)
  have p: "power_int (2::rat) e = power_int 2 u * 2 ^ d"
    by (subst e) (simp add: power_int_add)
  have vp: "v = of_int m * (power_int 2 u * 2 ^ d)"
    unfolding v_def p ..
  have "v / power_int 2 u = of_int (m * 2 ^ d)"
    by (simp add: vp)
  then have "rne (v / power_int 2 u) = m * 2 ^ d"
    by (simp only: rne_of_int)
  then have "round_mag v = of_int (m * 2 ^ d) * power_int 2 u"
    by (simp add: round_mag_def u_def)
  also have "\<dots> = v" by (simp add: vp)
  finally show ?thesis by (simp only: v_def)
qed

lemma round_mag_exact:
  assumes "0 < m" "m \<le> 2 ^ 53" "- 1074 \<le> e"
  shows "round_mag (of_int m * power_int 2 e) = of_int m * power_int 2 e"
proof (cases "m = 2 ^ 53")
  case False
  then show ?thesis using assms round_mag_exact_lt [of m e] by simp
next
  case True
  have "(of_int m :: rat) * power_int 2 e = of_int (2 ^ 52) * power_int 2 (e + 1)"
    by (simp add: True power_int_add)
  then show ?thesis using round_mag_exact_lt [of "2 ^ 52" "e + 1"] assms(3) by simp
qed

lemma round_mag_idem:
  assumes "0 < a"
  shows "round_mag (round_mag a) = round_mag a \<or> round_mag a = 0"
proof -
  define m where "m = rne (a / power_int 2 (ulp_exp a))"
  have r: "round_mag a = of_int m * power_int 2 (ulp_exp a)" by (simp add: round_mag_def m_def)
  have "a / power_int 2 (ulp_exp a) \<le> of_int (2 ^ 53)"
    using scaled_lt [OF assms] by (simp add: field_simps)
  then have m53: "m \<le> 2 ^ 53" unfolding m_def by (rule rne_le)
  have "0 \<le> a / power_int 2 (ulp_exp a)" using assms by simp
  then have m0: "0 \<le> m" unfolding m_def by (rule rne_nonneg)
  show ?thesis
  proof (cases "m = 0")
    case True
    then show ?thesis by (simp add: r)
  next
    case False
    then have "0 < m" using m0 by simp
    then show ?thesis using round_mag_exact [OF _ m53 ulp_exp_ge [of a]] by (simp add: r)
  qed
qed

lemma round_mag_int:
  assumes "0 < n" "n \<le> 2 ^ 53"
  shows "round_mag (of_int n) = of_int n"
  using round_mag_exact [OF assms, of 0] by simp

lemma rnd_pos:
  assumes "0 < a"
  shows "rnd a = (if 2 ^ 1024 \<le> round_mag a then PInf else Fin (round_mag a))"
  using assms by (simp add: rnd_def)

lemma rnd_mono_pos:
  assumes "0 < a" "a \<le> b"
  shows "fle (rnd a) (rnd b)"
proof -
  have b: "0 < b" using assms by simp
  show ?thesis
    using round_mag_mono [OF assms]
    by (auto simp: rnd_pos [OF assms(1)] rnd_pos [OF b] fle_def)
qed

lemma rnd_idem:
  assumes "0 \<le> a" "rnd a = Fin v"
  shows "rnd v = Fin v \<and> 0 \<le> v"
proof (cases "a = 0")
  case True
  then show ?thesis using assms by (simp add: rnd_def)
next
  case False
  then have a: "0 < a" using assms by simp
  have v: "v = round_mag a" "\<not> 2 ^ 1024 \<le> round_mag a"
    using assms(2) by (auto simp: rnd_pos [OF a] split: if_splits)
  have v0: "0 \<le> v" using round_mag_nonneg [of a] a by (simp add: v)
  show ?thesis
  proof (cases "v = 0")
    case True
    then show ?thesis by (simp add: rnd_def)
  next
    case False
    then have "round_mag v = v" using round_mag_idem [OF a] by (simp add: v)
    then show ?thesis using v v0 False by (simp add: rnd_def)
  qed
qed

lemma rnd_int:
  assumes "0 \<le> n" "n \<le> 2 ^ 53"
  shows "rnd (of_int n) = Fin (of_int n)"
proof (cases "n = 0")
  case True
  then show ?thesis by (simp add: rnd_def)
next
  case False
  then have n: "0 < n" using assms by simp
  have "(of_int n :: rat) \<le> of_int (2 ^ 53)" using assms(2) by (simp only: of_int_le_iff)
  then have "(of_int n :: rat) < 2 ^ 1024" by simp
  then show ?thesis using n round_mag_int [OF n assms(2)] by (simp add: rnd_pos)
qed

lemma flt_trans: "flt x y \<Longrightarrow> flt y z \<Longrightarrow> flt x z"
  by (cases x; cases y; cases z) (auto simp: flt_def)

lemma fle_neq_flt: "fle (Fin a) y \<Longrightarrow> y \<noteq> Fin a \<Longrightarrow> y \<noteq> NZero \<Longrightarrow> flt (Fin a) y"
  by (cases y) (auto simp: fle_def flt_def)

section \<open>The stepping loop\<close>

lemma integrate_exit:
  "\<not> (flt t tmax \<and> flt c ms) \<Longrightarrow>
   integrate f params h tmax ms (t, s, c, pts) = Some (Inr (t, s, c, pts))"
  by (subst integrate.simps) auto

lemma integrate_throw:
  "flt t tmax \<Longrightarrow> flt c ms \<Longrightarrow> rk4Step f s params h = Inl e \<Longrightarrow>
   integrate f params h tmax ms (t, s, c, pts) = Some (Inl e)"
  by (subst integrate.simps) auto

lemma integrate_unstable:
  "flt t tmax \<Longrightarrow> flt c ms \<Longrightarrow> rk4Step f s params h = Inr s' \<Longrightarrow> hasInvalidValues s' \<Longrightarrow>
   integrate f params h tmax ms (t, s, c, pts) = Some (Inl (NumericalInstability (toFixed2 (fadd t h))))"
  by (subst integrate.simps) auto

lemma integrate_full:
  "flt t tmax \<Longrightarrow> flt c ms \<Longrightarrow> rk4Step f s params h = Inr s' \<Longrightarrow> \<not> hasInvalidValues s' \<Longrightarrow>
   max_array_length \<le> length pts \<Longrightarrow>
   integrate f params h tmax ms (t, s, c, pts) = Some (Inl InvalidArrayLength)"
  by (subst integrate.simps) auto

lemma integrate_step:
  "flt t tmax \<Longrightarrow> flt c ms \<Longrightarrow> rk4Step f s params h = Inr s' \<Longrightarrow> \<not> hasInvalidValues s' \<Longrightarrow>
   length pts < max_array_length \<Longrightarrow>
   integrate f params h tmax ms (t, s, c, pts) =
   integrate f params h tmax ms
     (fadd t h, s', fadd c (Fin 1), pts @ [\<lparr>pt_t = fadd t h, pt_state = s'\<rparr>])"
  by (subst integrate.simps) auto

lemma integrate_induct [consumes 1, case_names exit throw unstable full step]:
  assumes "integrate f params h tmax ms vars = Some y"
    and "\<And>t s c pts. \<not> (flt t tmax \<and> flt c ms) \<Longrightarrow> P (t, s, c, pts) (Inr (t, s, c, pts))"
    and "\<And>t s c pts e. flt t tmax \<Longrightarrow> flt c ms \<Longrightarrow> rk4Step f s params h = Inl e
           \<Longrightarrow> P (t, s, c, pts) (Inl e)"
    and "\<And>t s c pts s'. flt t tmax \<Longrightarrow> flt c ms \<Longrightarrow> rk4Step f s params h = Inr s'
           \<Longrightarrow> hasInvalidValues s'
           \<Longrightarrow> P (t, s, c, pts) (Inl (NumericalInstability (toFixed2 (fadd t h))))"
    and "\<And>t s c pts s'. flt t tmax \<Longrightarrow> flt c ms \<Longrightarrow> rk4Step f s params h = Inr s'
           \<Longrightarrow> \<not> hasInvalidValues s' \<Longrightarrow> max_array_length \<le> length pts
           \<Longrightarrow> P (t, s, c, pts) (Inl InvalidArrayLength)"
    and "\<And>t s c pts s' y. flt t tmax \<Longrightarrow> flt c ms \<Longrightarrow> rk4Step f s params h = Inr s'
           \<Longrightarrow> \<not> hasInvalidValues s'
           \<Longrightarrow> integrate f params h tmax ms
                 (fadd t h, s', fadd c (Fin 1), pts @ [\<lparr>pt_t = fadd t h, pt_state = s'\<rparr>]) = Some y
           \<Longrightarrow> P (fadd t h, s', fadd c (Fin 1), pts @ [\<lparr>pt_t = fadd t h, pt_state = s'\<rparr>]) y
           \<Longrightarrow> length pts < max_array_length
           \<Longrightarrow> P (t, s, c, pts) y"
  shows "P vars y"
proof -
  let ?Q = "\<lambda>f' params' h' tmax' ms' vars' y'.
     f' = f \<longrightarrow> params' = params \<longrightarrow> h' = h \<longrightarrow> tmax' = tmax \<longrightarrow> ms' = ms \<longrightarrow>
     integrate f params h tmax ms vars' = Some y' \<and> P vars' y'"
  have "?Q f params h tmax ms vars y"
  proof (rule integrate.raw_induct [where P = ?Q, OF _ assms(1)], intro impI, goal_cases)
    case (1 integrate' f' params' h' tmax' ms' vars' y')
    obtain t s c pts where v: "vars' = (t, s, c, pts)" by (cases vars') auto
    note ih = 1(1) [rule_format, of f params h tmax ms]
    note body = 1(2) [unfolded 1(3-7) v, simplified]
    show ?case
    proof (cases "flt t tmax \<and> flt c ms")
      case False
      then have "y' = Inr (t, s, c, pts)" using body by auto
      then show ?thesis using integrate_exit [OF False] assms(2) [OF False] by (simp add: v)
    next
      case True
      then have g: "flt t tmax" "flt c ms" by auto
      show ?thesis
      proof (cases "rk4Step f s params h")
        case (Inl e)
        then have "y' = Inl e" using body g by simp
        then show ?thesis
          using integrate_throw [OF g Inl] assms(3) [OF g Inl] by (simp add: v)
      next
        case (Inr s')
        show ?thesis
        proof (cases "hasInvalidValues s'")
          case True
          then have "y' = Inl (NumericalInstability (toFixed2 (fadd t h)))" using body g Inr by simp
          then show ?thesis
            using integrate_unstable [OF g Inr True] assms(4) [OF g Inr True] by (simp add: v)
        next
          case False
          show ?thesis
          proof (cases "max_array_length \<le> length pts")
            case True
            then have "y' = Inl InvalidArrayLength" using body g Inr False by simp
            then show ?thesis
              using integrate_full [OF g Inr False True] assms(5) [OF g Inr False True]
              by (simp add: v)
          next
            case room: False
            then have l: "length pts < max_array_length" by simp
            have "integrate' f params h tmax ms
               (fadd t h, s', fadd c (Fin 1), pts @ [\<lparr>pt_t = fadd t h, pt_state = s'\<rparr>]) = Some y'"
              using body g Inr False room by simp
            from ih [OF this] have r:
              "integrate f params h tmax ms
                 (fadd t h, s', fadd c (Fin 1), pts @ [\<lparr>pt_t = fadd t h, pt_state = s'\<rparr>]) = Some y'"
              "P (fadd t h, s', fadd c (Fin 1), pts @ [\<lparr>pt_t = fadd t h, pt_state = s'\<rparr>]) y'"
              by auto
            show ?thesis
              using integrate_step [OF g Inr False l] r assms(6) [OF g Inr False r l]
              by (simp add: v)
          qed
        qed
      qed
    qed
  qed
  then show ?thesis by simp
qed

lemma integrate_Inr_guard:
  assumes "integrate f params h tmax ms vars = Some (Inr (t', s', c', pts'))"
  shows "\<not> (flt t' tmax \<and> flt c' ms)"
proof -
  have "\<forall>t' s' c' pts'. Inr (t', s', c', pts') = y \<longrightarrow> \<not> (flt t' tmax \<and> flt c' ms)"
    if "integrate f params h tmax ms vars = Some y" for y
    using that by (induction rule: integrate_induct) auto
  from this [OF assms] show ?thesis by blast
qed

lemma integrate_stall:
  assumes "integrate f params h tmax ms (t, s, c, pts) = Some (Inr (t', s', c', pts'))"
    and "fadd t h = t"
  shows "t' = t"
proof -
  have "fadd (fst vars) h = fst vars \<longrightarrow>
        (\<forall>t' s' c' pts'. y = Inr (t', s', c', pts') \<longrightarrow> t' = fst vars)"
    if "integrate f params h tmax ms vars = Some y" for y vars
    using that by (induction rule: integrate_induct) auto
  from this [OF assms(1)] assms(2) show ?thesis by simp
qed

lemma fadd_one_not_NaN: "c \<noteq> NaN \<Longrightarrow> fadd c (Fin 1) \<noteq> NaN"
  by (cases c) (auto simp: rnd_def)

lemma integrate_count_not_NaN:
  assumes "integrate f params h tmax ms (t, s, c, pts) = Some (Inr (t', s', c', pts'))"
    and "c \<noteq> NaN"
  shows "c' \<noteq> NaN"
proof -
  have "\<forall>t s c pts. vars = (t, s, c, pts) \<longrightarrow> c \<noteq> NaN \<longrightarrow>
        (\<forall>t' s' c' pts'. y = Inr (t', s', c', pts') \<longrightarrow> c' \<noteq> NaN)"
    if "integrate f params h tmax ms vars = Some y" for y vars
    using that
  proof (induction rule: integrate_induct)
    case (step t s c pts s1 y)
    show ?case using step(7) fadd_one_not_NaN [of c] by blast
  qed simp_all
  from this [OF assms(1)] assms(2) show ?thesis by blast
qed

lemma fle_not_flt: "x \<noteq> NaN \<Longrightarrow> y \<noteq> NaN \<Longrightarrow> \<not> flt x y \<Longrightarrow> fle y x"
  by (cases x; cases y) (auto simp: flt_def fle_def)

lemma nonneg_double_fadd:
  assumes "nonneg_double t" "flt t tmax" "0 < d"
  shows "nonneg_double (fadd t (Fin d)) \<and> (flt t (fadd t (Fin d)) \<or> fadd t (Fin d) = t)"
proof -
  from assms(1,2) obtain a where a: "t = Fin a" "0 \<le> a" "rnd a = Fin a"
    by (cases t) (auto simp: nonneg_double_def flt_def)
  have s: "0 < a + d" using a assms by simp
  have r: "fadd t (Fin d) = rnd (a + d)" by (simp add: a)
  have n: "rnd (a + d) \<noteq> NaN" "rnd (a + d) \<noteq> NInf" "rnd (a + d) \<noteq> NZero"
    using s by (auto simp: rnd_def)
  have nd: "nonneg_double (rnd (a + d))"
  proof (cases "rnd (a + d)")
    case (Fin v)
    then show ?thesis using rnd_idem [of "a + d" v] s by (simp add: nonneg_double_def)
  qed (use n in \<open>auto simp: nonneg_double_def\<close>)
  have le: "fle (Fin a) (rnd (a + d))"
  proof (cases "a = 0")
    case True
    then show ?thesis
      using round_mag_nonneg [of d] assms(3) by (auto simp: rnd_pos fle_def)
  next
    case False
    then have "fle (rnd a) (rnd (a + d))" using a assms(3) by (intro rnd_mono_pos) auto
    then show ?thesis by (simp add: a)
  qed
  show ?thesis
    using nd le n fle_neq_flt [of a "rnd (a + d)"] unfolding r a(1) by auto
qed

lemma sorted_wrt_last:
  "sorted_wrt P xs \<Longrightarrow> x \<in> set xs \<Longrightarrow> x = last xs \<or> P x (last xs)"
  by (induction xs) (auto split: if_splits)

lemma integrate_increasing:
  assumes "integrate f params (Fin d) tmax ms (t, s, c, pts) = Some (Inr (t', s', c', pts'))"
    and "0 < d" "ms \<noteq> NaN" "\<not> fge c' ms"
    and "c \<noteq> NaN" "nonneg_double t" "pts \<noteq> []" "pt_t (last pts) = t"
    and "sorted_wrt flt (map pt_t pts)"
  shows "sorted_wrt flt (map pt_t pts')"
proof -
  let ?K = "\<lambda>(t, s, c, pts). c \<noteq> NaN \<and> nonneg_double t \<and> pts \<noteq> [] \<and> pt_t (last pts) = t \<and>
              sorted_wrt flt (map pt_t pts)"
  have "?K vars \<longrightarrow> (\<forall>t' s' c' pts'. y = Inr (t', s', c', pts') \<longrightarrow> \<not> fge c' ms \<longrightarrow>
          sorted_wrt flt (map pt_t pts'))"
    if "integrate f params (Fin d) tmax ms vars = Some y" for y vars
    using that
  proof (induction rule: integrate_induct)
    case (step t s c pts s1 y)
    show ?case
    proof (intro impI allI)
      fix t' s' c' pts'
      assume K: "?K (t, s, c, pts)" and y: "y = Inr (t', s', c', pts')" and ok: "\<not> fge c' ms"
      let ?t1 = "fadd t (Fin d)"
      note run = step(5) [unfolded y]
      have c1: "fadd c (Fin 1) \<noteq> NaN" using K by (simp add: fadd_one_not_NaN)
      have c': "c' \<noteq> NaN" using integrate_count_not_NaN [OF run c1] .
      from nonneg_double_fadd [OF _ step(1) assms(2)] K
      have nd: "nonneg_double ?t1" and adv: "flt t ?t1 \<or> ?t1 = t" by auto
      have "?t1 \<noteq> t"
      proof
        assume stall: "?t1 = t"
        then have "fadd ?t1 (Fin d) = ?t1" by simp
        from integrate_stall [OF run this] have "t' = t" using stall by simp
        then have "\<not> flt c' ms" using integrate_Inr_guard [OF run] step(1) by simp
        then have "fge c' ms" using fle_not_flt [OF c' assms(3)] by (simp add: fge_def)
        then show False using ok by simp
      qed
      then have lt: "flt t ?t1" using adv by simp
      have "\<forall>x\<in>set (map pt_t pts). flt x ?t1"
      proof
        fix x assume "x \<in> set (map pt_t pts)"
        from sorted_wrt_last [OF _ this, of flt] K
        have "x = t \<or> flt x t" by (auto simp: last_map)
        then show "flt x ?t1" using lt flt_trans by blast
      qed
      then have "?K (?t1, s1, fadd c (Fin 1), pts @ [\<lparr>pt_t = ?t1, pt_state = s1\<rparr>])"
        using K c1 nd by (simp add: sorted_wrt_append)
      with step(7) y ok show "sorted_wrt flt (map pt_t pts')" by blast
    qed
  qed auto
  from this [OF assms(1)] assms show ?thesis by simp
qed

lemma integrate_points:
  assumes "integrate f params h tmax ms (t, s, c, pts) = Some (Inr (t', s', c', pts'))"
    and "pts \<noteq> []" "last pts = \<lparr>pt_t = t, pt_state = s\<rparr>"
    and "successively (rk4_successor f params h) pts"
  shows "(\<exists>rest. pts' = pts @ rest) \<and> last pts' = \<lparr>pt_t = t', pt_state = s'\<rparr> \<and>
         successively (rk4_successor f params h) pts'"
proof -
  let ?J = "\<lambda>(t, s, c, pts). pts \<noteq> [] \<and> last pts = \<lparr>pt_t = t, pt_state = s\<rparr> \<and>
              successively (rk4_successor f params h) pts"
  have "\<forall>t s c pts. vars = (t, s, c, pts) \<longrightarrow> ?J vars \<longrightarrow>
          (\<forall>t' s' c' pts'. y = Inr (t', s', c', pts') \<longrightarrow>
             (\<exists>rest. pts' = pts @ rest) \<and> ?J (t', s', c', pts'))"
    if "integrate f params h tmax ms vars = Some y" for y vars
    using that
  proof (induction rule: integrate_induct)
    case (step t s c pts s1 y)
    let ?p = "\<lparr>pt_t = fadd t h, pt_state = s1\<rparr>"
    show ?case
    proof (intro impI allI, elim Pair_inject)
      fix ta sa ca ptsa t' s' c' pts'
      assume eq: "t = ta" "s = sa" "c = ca" "pts = ptsa"
        and J: "?J (t, s, c, pts)" and y: "y = Inr (t', s', c', pts')"
      have "rk4_successor f params h (last pts) ?p"
        using J step(3) by (simp add: rk4_successor_def)
      then have "?J (fadd t h, s1, fadd c (Fin 1), pts @ [?p])"
        using J by (simp add: successively_append_iff)
      with step(7) y have "(\<exists>rest. pts' = (pts @ [?p]) @ rest) \<and> ?J (t', s', c', pts')"
        by blast
      then show "(\<exists>rest. pts' = ptsa @ rest) \<and> ?J (t', s', c', pts')"
        unfolding eq [symmetric] by auto
    qed
  qed auto
  from this [OF assms(1)] assms(2-) show ?thesis by simp
qed

lemma rnd_not_NaN [simp]: "rnd q \<noteq> NaN"
  by (simp add: rnd_def)

lemma fceil_not_NaN: "x \<noteq> NaN \<Longrightarrow> fceil x \<noteq> NaN"
  by (cases x) auto

lemma valid_config:
  assumes "validateSolverConfig c s = None"
  shows "\<exists>d m. dt c = Fin d \<and> 0 < d \<and> tMax c = Fin m \<and> 0 < m \<and> d \<le> m"
proof -
  from assms have 1: "isFinite (dt c)" "\<not> fle (dt c) (Fin 0)" "\<not> fgt (dt c) (tMax c)"
    "isFinite (tMax c)" "\<not> fle (tMax c) (Fin 0)"
    by (auto simp: validateSolverConfig_def split: if_splits)
  then show ?thesis
    by (cases "dt c"; cases "tMax c") (auto simp: fle_def fgt_def flt_def)
qed

lemma max_steps_not_NaN:
  assumes "validateSolverConfig c s = None"
  shows "max_steps c \<noteq> NaN"
proof -
  from valid_config [OF assms] obtain d m where
    "dt c = Fin d" "0 < d" "tMax c = Fin m" "0 < m" by blast
  then have "fdiv (tMax c) (dt c) = rnd (m / d)" by (simp add: fdiv_def)
  then show ?thesis
    unfolding max_steps_def by (intro fadd_one_not_NaN fceil_not_NaN) simp
qed

lemma solveODE_Inr:
  assumes "solveODE s c = Some (Inr traj)"
  shows "validateSolverConfig c s = None \<and> \<not> hasInvalidValues (initialConditions c) \<and>
    variables traj = stateVariables s \<and>
    (\<exists>t' s' c'. integrate (equations s) (cfg_parameters c) (dt c) (tMax c) (max_steps c)
        (initial_vars c) = Some (Inr (t', s', c', points traj)) \<and> \<not> fge c' (max_steps c))"
  using assms
  by (auto simp: solveODE_def max_steps_def initial_vars_def Let_def
      split: option.splits if_splits sum.splits)

lemma integrate_prefix:
  assumes "integrate f params h tmax ms (t, s, c, pts) = Some (Inr (t', s', c', pts'))"
  shows "\<exists>rest. pts' = pts @ rest"
proof -
  have "\<forall>t s c pts. vars = (t, s, c, pts) \<longrightarrow>
          (\<forall>t' s' c' pts'. y = Inr (t', s', c', pts') \<longrightarrow> (\<exists>rest. pts' = pts @ rest))"
    if "integrate f params h tmax ms vars = Some y" for y vars
    using that
  proof (induction rule: integrate_induct)
    case (step t s c pts s1 y)
    show ?case using step(7) by (metis append.assoc Pair_inject)
  qed auto
  from this [OF assms] show ?thesis by blast
qed

lemma fadd_count:
  assumes "Suc k \<le> 2 ^ 53"
  shows "fadd (Fin (of_nat k)) (Fin 1) = Fin (of_nat (Suc k))"
proof -
  have "int (Suc k) \<le> 2 ^ 53" using assms by (metis of_nat_le_iff of_nat_numeral of_nat_power)
  then have "rnd (of_int (int (Suc k))) = Fin (of_int (int (Suc k)))"
    by (intro rnd_int) auto
  then show ?thesis by (simp add: add.commute)
qed

lemma integrate_count:
  assumes "integrate f params h tmax ms (t, s, c, pts) = Some (Inr (t', s', c', pts'))"
    and "c = Fin (of_nat (length pts - 1))" "pts \<noteq> []" "length pts \<le> max_array_length"
  shows "c' = Fin (of_nat (length pts' - 1)) \<and> length pts' \<le> max_array_length"
proof -
  have "\<forall>t s c pts. vars = (t, s, c, pts) \<longrightarrow> c = Fin (of_nat (length pts - 1)) \<longrightarrow> pts \<noteq> [] \<longrightarrow>
          length pts \<le> max_array_length \<longrightarrow>
          (\<forall>t' s' c' pts'. y = Inr (t', s', c', pts') \<longrightarrow>
             c' = Fin (of_nat (length pts' - 1)) \<and> length pts' \<le> max_array_length)"
    if "integrate f params h tmax ms vars = Some y" for y vars
    using that
  proof (induction rule: integrate_induct)
    case (step t s c pts s1 y)
    let ?p = "\<lparr>pt_t = fadd t h, pt_state = s1\<rparr>"
    show ?case
    proof (intro impI allI, elim Pair_inject)
      fix ta sa ca ptsa t' s' c' pts'
      assume eq: "t = ta" "s = sa" "c = ca" "pts = ptsa"
        and c: "ca = Fin (of_nat (length ptsa - 1))" and ne: "ptsa \<noteq> []"
        and y: "y = Inr (t', s', c', pts')"
      have "length pts < 2 ^ 32" using step(6) by (simp add: max_array_length_def)
      also have "(2::nat) ^ 32 \<le> 2 ^ 53" by simp
      finally have "Suc (length pts - 1) \<le> 2 ^ 53" using ne eq by simp
      from fadd_count [OF this]
      have "fadd c (Fin 1) = Fin (of_nat (length (pts @ [?p]) - 1))"
        using c eq ne by simp
      moreover have "length (pts @ [?p]) \<le> max_array_length" using step(6) by simp
      ultimately show "c' = Fin (of_nat (length pts' - 1)) \<and> length pts' \<le> max_array_length"
        using step(7) y by blast
    qed
  qed auto
  from this [OF assms(1)] assms(2-) show ?thesis by blast
qed

lemma reaches_integrate:
  "reaches f params h tmax ms v v' \<Longrightarrow>
   integrate f params h tmax ms v = integrate f params h tmax ms v'"
  by (induction rule: reaches.induct) (simp_all add: integrate_step)

lemma reaches_last:
  assumes "reaches f params h tmax ms v (t, s, c, pts)"
    and "\<exists>t0 s0 c0 pts0. v = (t0, s0, c0, pts0) \<and> pts0 \<noteq> [] \<and> last pts0 = \<lparr>pt_t = t0, pt_state = s0\<rparr>"
  shows "pts \<noteq> [] \<and> last pts = \<lparr>pt_t = t, pt_state = s\<rparr>"
  using assms by (induction "(t, s, c, pts)" arbitrary: t s c pts rule: reaches.induct) auto

lemma reaches_finite:
  "reaches f params h tmax ms v v' \<Longrightarrow> \<not> hasInvalidValues (fst (snd v)) \<Longrightarrow>
   \<not> hasInvalidValues (fst (snd v'))"
  by (induction rule: reaches.induct) auto

lemma solveODE_valid:
  assumes "validateSolverConfig c s = None" "\<not> hasInvalidValues (initialConditions c)"
  shows "solveODE s c =
    (case integrate (equations s) (cfg_parameters c) (dt c) (tMax c) (max_steps c) (initial_vars c) of
       None \<Rightarrow> None
     | Some (Inl e) \<Rightarrow> Some (Inl e)
     | Some (Inr (t, state', stepCount, pts)) \<Rightarrow>
         if fge stepCount (max_steps c) then Some (Inl StepsExceeded)
         else Some (Inr \<lparr>points = pts, variables = stateVariables s\<rparr>))"
  unfolding solveODE_def max_steps_def initial_vars_def Let_def using assms by simp





text \<open>The loop exits or throws: every iteration that does neither adds a point.\<close>

lemma integrate_terminates:
  "\<exists>y. integrate f params h tmax ms (t, s, c, pts) = Some y"
proof (induction pts arbitrary: t s c
    rule: measure_induct_rule [of "\<lambda>pts. max_array_length - length pts"])
  case (less pts)
  show ?case
  proof (cases "flt t tmax \<and> flt c ms")
    case False
    then show ?thesis by (simp add: integrate_exit)
  next
    case True
    then have g: "flt t tmax" "flt c ms" by simp_all
    show ?thesis
    proof (cases "rk4Step f s params h")
      case (Inl e)
      then show ?thesis using integrate_throw [OF g Inl] by simp
    next
      case (Inr s')
      show ?thesis
      proof (cases "hasInvalidValues s'")
        case True
        then show ?thesis using integrate_unstable [OF g Inr True] by simp
      next
        case False
        show ?thesis
        proof (cases "max_array_length \<le> length pts")
          case True
          then show ?thesis using integrate_full [OF g Inr False True] by simp
        next
          case room: False
          then have l: "length pts < max_array_length" by simp
          let ?p = "\<lparr>pt_t = fadd t h, pt_state = s'\<rparr>"
          have "max_array_length - length (pts @ [?p]) < max_array_length - length pts"
            using l by simp
          from less [OF this] show ?thesis
            unfolding integrate_step [OF g Inr False l] by blast
        qed
      qed
    qed
  qed
qed

lemma solveODE_returns: "\<exists>y. solveODE s c = Some y"
proof (cases "validateSolverConfig c s")
  case (Some e)
  then show ?thesis by (simp add: solveODE_def)
next
  case None
  show ?thesis
  proof (cases "hasInvalidValues (initialConditions c)")
    case True
    then show ?thesis using None by (simp add: solveODE_def)
  next
    case False
    from integrate_terminates obtain y where
      "integrate (equations s) (cfg_parameters c) (dt c) (tMax c) (max_steps c) (initial_vars c)
         = Some y"
      unfolding initial_vars_def by blast
    then show ?thesis
      unfolding solveODE_valid [OF None False] by (auto split: sum.splits)
  qed
qed

section \<open>The store\<close>

lemma extends_refl [simp]: "extends hp hp"
  by (simp add: extends_def)

lemma extends_append [simp]: "extends hp (hp @ ext)"
  by (simp add: extends_def)

lemma extends_trans: "extends a b \<Longrightarrow> extends b c \<Longrightarrow> extends a c"
  unfolding extends_def
  by (metis (no_types, lifting) append_take_drop_id le_trans min.absorb2 take_append take_all_iff take_take
      append_eq_conv_conj length_take)

lemma extends_nth: "extends hp hp' \<Longrightarrow> a < length hp \<Longrightarrow> hp' ! a = hp ! a"
  unfolding extends_def by (metis nth_take)

lemma extends_arr: "extends hp hp' \<Longrightarrow> a < length hp \<Longrightarrow> arr hp' a = arr hp a"
  using extends_nth [of hp hp' a] by (auto simp: arr_def extends_def)

lemma extends_obj: "extends hp hp' \<Longrightarrow> a < length hp \<Longrightarrow> obj hp' a = obj hp a"
  using extends_nth [of hp hp' a] by (auto simp: obj_def extends_def)

lemma arr_append_old [simp]: "a < length hp \<Longrightarrow> arr (hp @ ext) a = arr hp a"
  by (simp add: arr_def nth_append)

lemma obj_append_old [simp]: "a < length hp \<Longrightarrow> obj (hp @ ext) a = obj hp a"
  by (simp add: obj_def nth_append)

lemma arr_append_new [simp]: "arr (hp @ [Arr xs]) (length hp) = xs"
  by (simp add: arr_def)

lemma new_array_refines: "refines hp (new_array xs hp) (Inr xs)"
  by (simp add: refines_def new_array_def alloc_def)

lemma add_h_refines:
  "refines hp (add_h a b hp) (add (arr hp a) (arr hp b))"
  by (simp add: refines_def add_h_def add_def new_array_def alloc_def)

lemma scale_h_refines: "refines hp (scale_h v k hp) (Inr (scale (arr hp v) k))"
  by (simp add: refines_def scale_h_def scale_def new_array_def alloc_def)

lemma call_h_refines: "refines hp (call_h f s p hp) (Inr (f (arr hp s) (obj hp p)))"
  by (simp add: refines_def call_h_def new_array_def alloc_def)

lemma refines_eq: "refines hp res v \<Longrightarrow> v = w \<Longrightarrow> refines hp res w"
  by simp

lemma hbind_refines:
  assumes "refines hp (m hp) v"
    and "\<And>e. v = Inl e \<Longrightarrow> w = Inl e"
    and "\<And>hp1 c xs. length hp \<le> length hp1 \<Longrightarrow> \<forall>a<length hp. arr hp1 a = arr hp a \<Longrightarrow>
           \<forall>a<length hp. obj hp1 a = obj hp a \<Longrightarrow> c < length hp1 \<Longrightarrow> length hp \<le> c \<Longrightarrow>
           v = Inr xs \<Longrightarrow> arr hp1 c = xs \<Longrightarrow> refines hp1 (k c hp1) w"
  shows "refines hp (hbind m k hp) w"
proof (cases "m hp")
  case (Pair hp1 r)
  show ?thesis
  proof (cases r)
    case (Inl e)
    then show ?thesis using assms(1,2) Pair by (simp add: refines_def hbind_def)
  next
    case (Inr c)
    then have 1: "extends hp hp1" "length hp \<le> c" "c < length hp1" "v = Inr (arr hp1 c)"
      using assms(1) Pair by (simp_all add: refines_def)
    have "refines hp1 (k c hp1) w"
    proof (rule assms(3) [where xs = "arr hp1 c"])
    qed (use 1 in \<open>auto simp: extends_arr extends_obj extends_def\<close>)
    then show ?thesis
      using 1(1) Pair Inr
      by (auto simp: refines_def hbind_def split: prod.splits sum.splits
          intro: extends_trans dest: extends_trans)
         (auto simp: extends_def)
  qed
qed

lemma rk4Step_h_refines:
  assumes "state < length hp" "params < length hp"
  shows "refines hp (rk4Step_h f state params h hp) (rk4Step f (arr hp state) (obj hp params) h)"
  unfolding rk4Step_h_def
  apply (insert assms)
  apply (rule hbind_refines, rule call_h_refines)
   apply simp
  apply (rule hbind_refines, rule scale_h_refines)
   apply simp
  apply (rule hbind_refines, rule add_h_refines)
   apply (simp add: rk4Step_def Let_def)
  apply (rule hbind_refines, rule call_h_refines)
   apply simp
  apply (rule hbind_refines, rule scale_h_refines)
   apply simp
  apply (rule hbind_refines, rule add_h_refines)
   apply (simp add: rk4Step_def Let_def)
  apply (rule hbind_refines, rule call_h_refines)
   apply simp
  apply (rule hbind_refines, rule scale_h_refines)
   apply simp
  apply (rule hbind_refines, rule add_h_refines)
   apply (simp add: rk4Step_def Let_def)
  apply (rule hbind_refines, rule call_h_refines)
   apply simp
  apply (rule hbind_refines, rule scale_h_refines)
   apply simp
  apply (rule hbind_refines, rule add_h_refines)
   apply (simp add: rk4Step_def Let_def)
  apply (rule hbind_refines, rule scale_h_refines)
   apply simp
  apply (rule hbind_refines, rule add_h_refines)
   apply (simp add: rk4Step_def Let_def)
  apply (rule hbind_refines, rule add_h_refines)
   apply (simp add: rk4Step_def Let_def)
  apply (rule hbind_refines, rule scale_h_refines)
   apply simp
  apply (rule refines_eq [OF add_h_refines])
  apply (simp add: rk4Step_def Let_def)
  done

section \<open>Vector arithmetic\<close>

lemma foldl_index: "foldl (\<lambda>s i. g s (v ! i)) z [0..<length v] = foldl g z v"
proof (induction v arbitrary: z rule: rev_induct)
  case Nil
  then show ?case by simp
next
  case (snoc x xs)
  have "foldl (\<lambda>s i. g s ((xs @ [x]) ! i)) z [0..<length xs]
      = foldl (\<lambda>s i. g s (xs ! i)) z [0..<length xs]"
    by (rule foldl_cong) (auto simp: nth_append)
  then show ?case using snoc by simp
qed

lemma add_vadd: "length a = length b \<Longrightarrow> add a b = Inr (vadd a b)"
  by (auto simp: add_def vadd_def intro!: nth_equalityI)

lemma scale_smul: "scale v c = smul c v"
  by (simp add: scale_def smul_def fmul_commute)

lemma length_vadd [simp]: "length (vadd a b) = min (length a) (length b)"
  by (simp add: vadd_def)

lemma length_smul [simp]: "length (smul c v) = length v"
  by (simp add: smul_def)

lemma length_scale [simp]: "length (scale v c) = length v"
  by (simp add: scale_def)

lemma add_Inr_length: "add a b = Inr r \<Longrightarrow> length a = length b \<and> length r = length a"
  by (auto simp: add_def split: if_splits)

text \<open>
  C7.  When the lengths of \<open>a\<close> and \<open>b\<close> differ, \<open>add\<close>, \<open>subtract\<close> and \<open>dot\<close> each throw the
  length-mismatch error, which carries both lengths.  When the lengths agree, \<open>add\<close> and
  \<open>subtract\<close> return the element-wise sum and difference and \<open>dot\<close> returns the sum of the
  products, accumulated from the left starting at 0.  \<open>scale\<close> and \<open>magnitude\<close> have no
  error result at all: for a vector of any length \<open>scale\<close> returns the element-wise
  product with the scalar and \<open>magnitude\<close> returns a number.
\<close>

theorem vector_ops_dimension_check:
  "(length a \<noteq> length b \<longrightarrow>
      add a b = Inl (VectorLengthMismatch (length a) (length b)) \<and>
      subtract a b = Inl (VectorLengthMismatch (length a) (length b)) \<and>
      dot a b = Inl (VectorLengthMismatch (length a) (length b))) \<and>
   (length a = length b \<longrightarrow>
      (\<exists>r. add a b = Inr r \<and> length r = length a \<and>
           (\<forall>i<length a. r ! i = fadd (a ! i) (b ! i))) \<and>
      (\<exists>r. subtract a b = Inr r \<and> length r = length a \<and>
           (\<forall>i<length a. r ! i = fsub (a ! i) (b ! i))) \<and>
      dot a b = Inr (foldl (\<lambda>sum (x, y). fadd sum (fmul x y)) (Fin 0) (zip a b))) \<and>
   length (scale v k) = length v \<and> (\<forall>i<length v. scale v k ! i = fmul (v ! i) k) \<and>
   (\<exists>n. magnitude v = n)"
proof -
  have "foldl (\<lambda>sum i. fadd sum (fmul (a ! i) (b ! i))) (Fin 0) [0..<length a]
      = foldl (\<lambda>sum (x, y). fadd sum (fmul x y)) (Fin 0) (zip a b)"
    if "length a = length b"
  proof -
    have "foldl (\<lambda>sum i. (\<lambda>s (x, y). fadd s (fmul x y)) sum (zip a b ! i)) (Fin 0)
            [0..<length (zip a b)]
        = foldl (\<lambda>sum (x, y). fadd sum (fmul x y)) (Fin 0) (zip a b)"
      by (rule foldl_index)
    moreover have "foldl (\<lambda>sum i. (\<lambda>s (x, y). fadd s (fmul x y)) sum (zip a b ! i)) (Fin 0)
            [0..<length (zip a b)]
        = foldl (\<lambda>sum i. fadd sum (fmul (a ! i) (b ! i))) (Fin 0) [0..<length a]"
      using that by (intro foldl_cong) auto
    ultimately show ?thesis by simp
  qed
  then show ?thesis
    by (simp add: add_def subtract_def dot_def scale_def)
qed

theorem vector_ops_dimension_check_witness:
  "add [Fin 1, Fin 2] [Fin 3] = Inl (VectorLengthMismatch 2 1) \<and>
   subtract [Fin 1, Fin 2] [Fin 3] = Inl (VectorLengthMismatch 2 1) \<and>
   dot [Fin 1, Fin 2] [Fin 3] = Inl (VectorLengthMismatch 2 1) \<and>
   add [Fin 1, Fin 2] [Fin 3, Fin 4] = Inr [Fin 4, Fin 6] \<and>
   subtract [Fin 1, Fin 2] [Fin 3, Fin 5] = Inr [Fin (- 2), Fin (- 3)] \<and>
   dot [Fin 1, Fin 2] [Fin 3, Fin 4] = Inr (Fin 11) \<and>
   scale [] (Fin 2) = [] \<and>
   scale [Fin 1, PInf] (Fin 2) = [Fin 2, PInf]"
proof -
  have m: "length [Fin 1, Fin 2] \<noteq> length [Fin 3]" by simp
  have e: "length [Fin 1, Fin 2] = length [Fin 3, Fin 4]" by simp
  have e': "length [Fin 1, Fin 2] = length [Fin 3, Fin 5]" by simp
  show ?thesis
    using vector_ops_dimension_check [of "[Fin 1, Fin 2]" "[Fin 3]" "[]" "Fin 2"]
      vector_ops_dimension_check [of "[Fin 1, Fin 2]" "[Fin 3, Fin 4]" "[Fin 1, PInf]" "Fin 2"]
      m e e'
    by (simp add: add_def subtract_def scale_def float_eval upt_rec)
qed

text \<open>
  C10.  \<open>magnitude v\<close> is the square root of \<open>dot v v\<close>: \<open>dot v v\<close> never throws, and both
  reduce the same sum of the squared elements, accumulated from the left starting at 0.
\<close>

theorem magnitude_sqrt_dot:
  "\<exists>d. dot v v = Inr d \<and> magnitude v = fsqrt d \<and>
       d = foldl (\<lambda>sum val. fadd sum (fmul val val)) (Fin 0) v"
  using foldl_index [of "\<lambda>s x. fadd s (fmul x x)" v "Fin 0"]
  by (simp add: dot_def magnitude_def)

theorem magnitude_sqrt_dot_witness:
  "dot [Fin 3, Fin 4] [Fin 3, Fin 4] = Inr (Fin 25) \<and> magnitude [Fin 3, Fin 4] = Fin 5 \<and>
   fmul (magnitude [Fin 3, Fin 4]) (magnitude [Fin 3, Fin 4]) = Fin 25"
proof -
  have s: "fsqrt (Fin 25) = Fin 5"
    by (simp add: sqrt_rat_def float_eval isqrt.simps)
  have d: "foldl (\<lambda>sum val. fadd sum (fmul val val)) (Fin 0) [Fin 3, Fin 4] = Fin 25"
    by (simp add: float_eval)
  show ?thesis
    using magnitude_sqrt_dot [of "[Fin 3, Fin 4]"] s d by (auto simp: float_eval)
qed

section \<open>The RK4 step\<close>

text \<open>
  C4.  When the derivative function returns a vector as long as the state at each state
  of that length, one call of \<open>rk4Step\<close> returns
  \<open>state + (dt/6)\<cdot>((k1 + 2\<cdot>k2) + (2\<cdot>k3 + k4))\<close> with \<open>k1 = f(state)\<close>,
  \<open>k2 = f(state + (dt/2)\<cdot>k1)\<close>, \<open>k3 = f(state + (dt/2)\<cdot>k2)\<close>, \<open>k4 = f(state + dt\<cdot>k3)\<close>, every
  operation being the floating-point one.  Nothing is assumed of the numbers: the step
  returns its result also when it holds a NaN or an infinity.
\<close>

theorem rk4Step_formula:
  assumes "\<And>s. length s = length state \<Longrightarrow> length (f s params) = length state"
  shows "rk4Step f state params h = Inr (rk4_formula f state params h)"
  using assms by (simp add: rk4Step_def rk4_formula_def Let_def scale_smul add_vadd)

theorem rk4Step_formula_witness:
  "rk4Step decay_equations [Fin 1] Map.empty (Fin (1 / 4)) = Inr [Fin (1595 / 2048)] \<and>
   rk4_formula decay_equations [Fin 1] Map.empty (Fin (1 / 4)) = [Fin (1595 / 2048)] \<and>
   rk4Step nan_equations [Fin 1] Map.empty (Fin (1 / 4)) = Inr [NaN] \<and>
   rk4Step lorenz_equations [Fin 1, Fin 1, Fin 1] (default_parameters lorenzSystem) (rnd (1 / 100))
     = Inr (rk4_formula lorenz_equations [Fin 1, Fin 1, Fin 1] (default_parameters lorenzSystem)
              (rnd (1 / 100)))"
proof -
  have d: "length (decay_equations s Map.empty) = length [Fin 1]"
    if "length s = length [Fin 1]" for s :: "num list"
    using that by (simp add: decay_equations_def)
  have n: "length (nan_equations s Map.empty) = length [Fin 1]"
    if "length s = length [Fin 1]" for s :: "num list"
    using that by (simp add: nan_equations_def)
  have l: "length (lorenz_equations s p) = length [Fin 1, Fin 1, Fin 1]"
    if "length s = length [Fin 1, Fin 1, Fin 1]" for s :: "num list" and p
    by (simp add: lorenz_equations_def Let_def)
  have v: "rk4_formula decay_equations [Fin 1] Map.empty (Fin (1 / 4)) = [Fin (1595 / 2048)]"
    by (simp add: rk4_formula_def decay_equations_def vadd_def smul_def float_eval)
  have w: "rk4_formula nan_equations [Fin 1] Map.empty (Fin (1 / 4)) = [NaN]"
    by (simp add: rk4_formula_def nan_equations_def vadd_def smul_def float_eval)
  show ?thesis
    using rk4Step_formula [of "[Fin 1]" decay_equations Map.empty "Fin (1 / 4)", OF d]
      rk4Step_formula [of "[Fin 1]" nan_equations Map.empty "Fin (1 / 4)", OF n]
      rk4Step_formula [of "[Fin 1, Fin 1, Fin 1]" lorenz_equations
        "default_parameters lorenzSystem" "rnd (1 / 100)", OF l]
      v w
    by simp
qed

section \<open>The configuration validator\<close>



lemma integrate_h_exit:
  "\<not> (flt t tmax \<and> flt c ms) \<Longrightarrow>
   integrate_h f params h tmax ms (t, s, c, pts) hp = Some (hp, Inr (t, s, c, pts))"
  by (subst integrate_h.simps) auto

lemma integrate_h_throw:
  "flt t tmax \<Longrightarrow> flt c ms \<Longrightarrow> rk4Step_h f s params h hp = (hp1, Inl e) \<Longrightarrow>
   integrate_h f params h tmax ms (t, s, c, pts) hp = Some (hp1, Inl e)"
  by (subst integrate_h.simps) auto

lemma integrate_h_unstable:
  "flt t tmax \<Longrightarrow> flt c ms \<Longrightarrow> rk4Step_h f s params h hp = (hp1, Inr s') \<Longrightarrow>
   hasInvalidValues (arr hp1 s') \<Longrightarrow>
   integrate_h f params h tmax ms (t, s, c, pts) hp
     = Some (hp1, Inl (NumericalInstability (toFixed2 (fadd t h))))"
  by (subst integrate_h.simps) auto

lemma integrate_h_full:
  "flt t tmax \<Longrightarrow> flt c ms \<Longrightarrow> rk4Step_h f s params h hp = (hp1, Inr s') \<Longrightarrow>
   \<not> hasInvalidValues (arr hp1 s') \<Longrightarrow> max_array_length \<le> length pts \<Longrightarrow>
   integrate_h f params h tmax ms (t, s, c, pts) hp = Some (hp1, Inl InvalidArrayLength)"
  by (subst integrate_h.simps) auto

lemma integrate_h_step:
  "flt t tmax \<Longrightarrow> flt c ms \<Longrightarrow> rk4Step_h f s params h hp = (hp1, Inr s') \<Longrightarrow>
   \<not> hasInvalidValues (arr hp1 s') \<Longrightarrow> length pts < max_array_length \<Longrightarrow>
   integrate_h f params h tmax ms (t, s, c, pts) hp =
   integrate_h f params h tmax ms
     (fadd t h, s', fadd c (Fin 1), pts @ [\<lparr>hp_t = fadd t h, hp_state = length hp1\<rparr>])
     (hp1 @ [Arr (arr hp1 s')])"
  by (subst integrate_h.simps) (auto simp: alloc_def)

lemma integrate_h_induct [consumes 1, case_names exit throw unstable full step]:
  assumes "integrate_h f params h tmax ms vars hp = Some y"
    and "\<And>t s c pts hp. \<not> (flt t tmax \<and> flt c ms) \<Longrightarrow> P (t, s, c, pts) hp (hp, Inr (t, s, c, pts))"
    and "\<And>t s c pts hp hp1 e. flt t tmax \<Longrightarrow> flt c ms \<Longrightarrow> rk4Step_h f s params h hp = (hp1, Inl e)
           \<Longrightarrow> P (t, s, c, pts) hp (hp1, Inl e)"
    and "\<And>t s c pts hp hp1 s'. flt t tmax \<Longrightarrow> flt c ms \<Longrightarrow>
           rk4Step_h f s params h hp = (hp1, Inr s') \<Longrightarrow> hasInvalidValues (arr hp1 s')
           \<Longrightarrow> P (t, s, c, pts) hp (hp1, Inl (NumericalInstability (toFixed2 (fadd t h))))"
    and "\<And>t s c pts hp hp1 s'. flt t tmax \<Longrightarrow> flt c ms \<Longrightarrow>
           rk4Step_h f s params h hp = (hp1, Inr s') \<Longrightarrow> \<not> hasInvalidValues (arr hp1 s')
           \<Longrightarrow> max_array_length \<le> length pts
           \<Longrightarrow> P (t, s, c, pts) hp (hp1, Inl InvalidArrayLength)"
    and "\<And>t s c pts hp hp1 s' y. flt t tmax \<Longrightarrow> flt c ms \<Longrightarrow>
           rk4Step_h f s params h hp = (hp1, Inr s') \<Longrightarrow> \<not> hasInvalidValues (arr hp1 s')
           \<Longrightarrow> integrate_h f params h tmax ms
                 (fadd t h, s', fadd c (Fin 1), pts @ [\<lparr>hp_t = fadd t h, hp_state = length hp1\<rparr>])
                 (hp1 @ [Arr (arr hp1 s')]) = Some y
           \<Longrightarrow> P (fadd t h, s', fadd c (Fin 1), pts @ [\<lparr>hp_t = fadd t h, hp_state = length hp1\<rparr>])
                 (hp1 @ [Arr (arr hp1 s')]) y
           \<Longrightarrow> length pts < max_array_length
           \<Longrightarrow> P (t, s, c, pts) hp y"
  shows "P vars hp y"
proof -
  let ?Q = "\<lambda>f' params' h' tmax' ms' vars' hp' y'.
     f' = f \<longrightarrow> params' = params \<longrightarrow> h' = h \<longrightarrow> tmax' = tmax \<longrightarrow> ms' = ms \<longrightarrow>
     integrate_h f params h tmax ms vars' hp' = Some y' \<and> P vars' hp' y'"
  have "?Q f params h tmax ms vars hp y"
  proof (rule integrate_h.raw_induct [where P = ?Q, OF _ assms(1)], intro impI, goal_cases)
    case (1 integrate' f' params' h' tmax' ms' vars' hp' y')
    obtain t s c pts where v: "vars' = (t, s, c, pts)" by (cases vars') auto
    note ih = 1(1) [rule_format, of f params h tmax ms]
    note body = 1(2) [unfolded 1(3-7) v, simplified]
    show ?case
    proof (cases "flt t tmax \<and> flt c ms")
      case False
      then have "y' = (hp', Inr (t, s, c, pts))" using body by auto
      then show ?thesis using integrate_h_exit [OF False] assms(2) [OF False] by (simp add: v)
    next
      case True
      then have g: "flt t tmax" "flt c ms" by auto
      obtain hp1 r where step: "rk4Step_h f s params h hp' = (hp1, r)"
        by (cases "rk4Step_h f s params h hp'") auto
      show ?thesis
      proof (cases r)
        case (Inl e)
        then have "y' = (hp1, Inl e)" using body g step by simp
        then show ?thesis
          using integrate_h_throw [OF g step [unfolded Inl]] assms(3) [OF g step [unfolded Inl]]
          by (simp add: v)
      next
        case (Inr s')
        note st = step [unfolded Inr]
        show ?thesis
        proof (cases "hasInvalidValues (arr hp1 s')")
          case True
          then have "y' = (hp1, Inl (NumericalInstability (toFixed2 (fadd t h))))"
            using body g st by simp
          then show ?thesis
            using integrate_h_unstable [OF g st True] assms(4) [OF g st True] by (simp add: v)
        next
          case False
          show ?thesis
          proof (cases "max_array_length \<le> length pts")
            case True
            then have "y' = (hp1, Inl InvalidArrayLength)" using body g st False by simp
            then show ?thesis
              using integrate_h_full [OF g st False True] assms(5) [OF g st False True]
              by (simp add: v)
          next
            case room: False
            then have l: "length pts < max_array_length" by simp
            have "integrate' f params h tmax ms
               (fadd t h, s', fadd c (Fin 1), pts @ [\<lparr>hp_t = fadd t h, hp_state = length hp1\<rparr>])
               (hp1 @ [Arr (arr hp1 s')]) = Some y'"
              using body g st False room by (simp add: alloc_def)
            from ih [OF this] have r:
              "integrate_h f params h tmax ms
                 (fadd t h, s', fadd c (Fin 1), pts @ [\<lparr>hp_t = fadd t h, hp_state = length hp1\<rparr>])
                 (hp1 @ [Arr (arr hp1 s')]) = Some y'"
              "P (fadd t h, s', fadd c (Fin 1), pts @ [\<lparr>hp_t = fadd t h, hp_state = length hp1\<rparr>])
                 (hp1 @ [Arr (arr hp1 s')]) y'"
              by auto
            show ?thesis
              using integrate_h_step [OF g st False l] r assms(6) [OF g st False r l]
              by (simp add: v)
          qed
        qed
      qed
    qed
  qed
  then show ?thesis by simp
qed

lemma length_points_of [simp]: "length (points_of hp pts) = length pts"
  by (simp add: points_of_def)

lemma points_of_append [simp]:
  "points_of hp (pts @ qs) = points_of hp pts @ points_of hp qs"
  by (simp add: points_of_def)

lemma points_of_extends:
  "extends hp hp' \<Longrightarrow> list_all (\<lambda>p. hp_state p < length hp) pts \<Longrightarrow>
   points_of hp' pts = points_of hp pts"
  by (induction pts) (auto simp: points_of_def extends_arr)

lemma separate_old: "separate base hp (t, s, c, pts) \<Longrightarrow> list_all (\<lambda>p. hp_state p < length hp) pts"
  by (auto simp: separate_def list_all_iff)

lemma step_facts:
  assumes "rk4Step_h f s params h hp = (hp1, Inr s')" "s < length hp" "params < length hp"
  shows "extends hp hp1" "length hp \<le> s'" "s' < length hp1"
    "rk4Step f (arr hp s) (obj hp params) h = Inr (arr hp1 s')"
  using rk4Step_h_refines [OF assms(2,3), of f h] assms(1) by (simp_all add: refines_def)

lemma throw_facts:
  assumes "rk4Step_h f s params h hp = (hp1, Inl e)" "s < length hp" "params < length hp"
  shows "extends hp hp1" "rk4Step f (arr hp s) (obj hp params) h = Inl e"
  using rk4Step_h_refines [OF assms(2,3), of f h] assms(1) by (simp_all add: refines_def)

lemma extends_length: "extends hp hp' \<Longrightarrow> length hp \<le> length hp'"
  by (simp add: extends_def)

lemma separate_step:
  assumes "separate base hp (t, s, c, pts)" "extends hp hp1" "length hp \<le> s'" "s' < length hp1"
  shows "separate base (hp1 @ [Arr xs]) (t', s', c', pts @ [\<lparr>hp_t = t', hp_state = length hp1\<rparr>])"
  using assms extends_length [OF assms(2)]
  by (auto simp: separate_def list_all_iff)

lemma integrate_h_refines:
  assumes "integrate_h f params h tmax ms vars hp = Some (hp', r)"
    and "separate base hp vars" "params < length hp"
  shows "extends hp hp' \<and>
    (case r of
       Inl e \<Rightarrow> integrate f (obj hp params) h tmax ms (vars_of hp vars) = Some (Inl e)
     | Inr vars' \<Rightarrow> integrate f (obj hp params) h tmax ms (vars_of hp vars)
                     = Some (Inr (vars_of hp' vars')) \<and> separate base hp' vars')"
proof -
  have "separate base hp vars \<longrightarrow> params < length hp \<longrightarrow>
    (case y of (hp', r) \<Rightarrow> extends hp hp' \<and>
    (case r of
       Inl e \<Rightarrow> integrate f (obj hp params) h tmax ms (vars_of hp vars) = Some (Inl e)
     | Inr vars' \<Rightarrow> integrate f (obj hp params) h tmax ms (vars_of hp vars)
                     = Some (Inr (vars_of hp' vars')) \<and> separate base hp' vars'))"
    if "integrate_h f params h tmax ms vars hp = Some y" for y
    using that
  proof (induction rule: integrate_h_induct)
    case (exit t s c pts hp)
    then show ?case by (simp add: vars_of_def integrate_exit)
  next
    case (throw t s c pts hp hp1 e)
    show ?case
    proof (intro impI)
      assume sep: "separate base hp (t, s, c, pts)" and p: "params < length hp"
      then have s: "s < length hp" by (simp add: separate_def)
      note f = throw_facts [OF throw(3) s p]
      show "case (hp1, Inl e) of (hp', r) \<Rightarrow> extends hp hp' \<and>
        (case r of Inl e \<Rightarrow> integrate f (obj hp params) h tmax ms (vars_of hp (t, s, c, pts)) = Some (Inl e)
         | Inr vars' \<Rightarrow> integrate f (obj hp params) h tmax ms (vars_of hp (t, s, c, pts))
              = Some (Inr (vars_of hp' vars')) \<and> separate base hp' vars')"
        using f throw(1,2) by (simp add: vars_of_def integrate_throw)
    qed
  next
    case (unstable t s c pts hp hp1 s')
    show ?case
    proof (intro impI)
      assume sep: "separate base hp (t, s, c, pts)" and p: "params < length hp"
      then have s: "s < length hp" by (simp add: separate_def)
      note f = step_facts [OF unstable(3) s p]
      show "case (hp1, Inl (NumericalInstability (toFixed2 (fadd t h)))) of (hp', r) \<Rightarrow> extends hp hp' \<and>
        (case r of Inl e \<Rightarrow> integrate f (obj hp params) h tmax ms (vars_of hp (t, s, c, pts)) = Some (Inl e)
         | Inr vars' \<Rightarrow> integrate f (obj hp params) h tmax ms (vars_of hp (t, s, c, pts))
              = Some (Inr (vars_of hp' vars')) \<and> separate base hp' vars')"
        using f unstable(1,2,4) by (simp add: vars_of_def integrate_unstable)
    qed
  next
    case (full t s c pts hp hp1 s')
    show ?case
    proof (intro impI)
      assume sep: "separate base hp (t, s, c, pts)" and p: "params < length hp"
      then have s: "s < length hp" by (simp add: separate_def)
      note f = step_facts [OF full(3) s p]
      have l: "max_array_length \<le> length (points_of hp pts)" using full(5) by simp
      show "case (hp1, Inl InvalidArrayLength) of (hp', r) \<Rightarrow> extends hp hp' \<and>
        (case r of Inl e \<Rightarrow> integrate f (obj hp params) h tmax ms (vars_of hp (t, s, c, pts)) = Some (Inl e)
         | Inr vars' \<Rightarrow> integrate f (obj hp params) h tmax ms (vars_of hp (t, s, c, pts))
              = Some (Inr (vars_of hp' vars')) \<and> separate base hp' vars')"
        using f(1) integrate_full [OF full(1,2) f(4) full(4) l] by (simp add: vars_of_def)
    qed
  next
    case (step t s c pts hp hp1 s' y)
    obtain hp' r where y: "y = (hp', r)" by (cases y) auto
    let ?hp2 = "hp1 @ [Arr (arr hp1 s')]"
    let ?v1 = "(fadd t h, s', fadd c (Fin 1), pts @ [\<lparr>hp_t = fadd t h, hp_state = length hp1\<rparr>])"
    show ?case
    proof (intro impI)
      assume sep: "separate base hp (t, s, c, pts)" and p: "params < length hp"
      then have s: "s < length hp" by (simp add: separate_def)
      note f = step_facts [OF step(3) s p]
      have e2: "extends hp ?hp2" using f(1) by (auto simp: extends_def)
      have sep1: "separate base ?hp2 ?v1" using separate_step [OF sep f(1-3)] .
      have p2: "params < length ?hp2" using p extends_length [OF f(1)] by simp
      from step(7) sep1 p2 y have ih: "extends ?hp2 hp'"
        "case r of Inl e \<Rightarrow> integrate f (obj ?hp2 params) h tmax ms (vars_of ?hp2 ?v1) = Some (Inl e)
         | Inr vars' \<Rightarrow> integrate f (obj ?hp2 params) h tmax ms (vars_of ?hp2 ?v1)
              = Some (Inr (vars_of hp' vars')) \<and> separate base hp' vars'"
        by auto
      have o: "obj ?hp2 params = obj hp params" using extends_obj [OF e2 p] .
      have pts: "points_of ?hp2 pts = points_of hp pts"
        using points_of_extends [OF e2 separate_old [OF sep]] .
      have v: "vars_of ?hp2 ?v1 = (fadd t h, arr hp1 s', fadd c (Fin 1),
          points_of hp pts @ [\<lparr>pt_t = fadd t h, pt_state = arr hp1 s'\<rparr>])"
        using f(3) by (simp add: vars_of_def pts) (simp add: points_of_def)
      have st: "integrate f (obj hp params) h tmax ms (vars_of hp (t, s, c, pts))
          = integrate f (obj hp params) h tmax ms (vars_of ?hp2 ?v1)"
        unfolding v using integrate_step [OF step(1,2) f(4) step(4), of "points_of hp pts"] step(6)
        by (simp add: vars_of_def)
      show "case y of (hp', r) \<Rightarrow> extends hp hp' \<and>
        (case r of Inl e \<Rightarrow> integrate f (obj hp params) h tmax ms (vars_of hp (t, s, c, pts)) = Some (Inl e)
         | Inr vars' \<Rightarrow> integrate f (obj hp params) h tmax ms (vars_of hp (t, s, c, pts))
              = Some (Inr (vars_of hp' vars')) \<and> separate base hp' vars')"
        using ih extends_trans [OF e2 ih(1)] unfolding y st o by simp
    qed
  qed
  from this [OF assms(1)] assms(2,3) show ?thesis by simp
qed

lemma integrate_h_terminates:
  "\<exists>res. integrate_h f params h tmax ms (t, s, c, pts) hp = Some res"
proof (induction pts arbitrary: t s c hp
    rule: measure_induct_rule [of "\<lambda>pts. max_array_length - length pts"])
  case (less pts)
  show ?case
  proof (cases "flt t tmax \<and> flt c ms")
    case False
    then show ?thesis using integrate_h_exit [of t tmax c ms] by blast
  next
    case True
    then have g: "flt t tmax" "flt c ms" by simp_all
    obtain hp1 r where r: "rk4Step_h f s params h hp = (hp1, r)"
      by (cases "rk4Step_h f s params h hp") auto
    show ?thesis
    proof (cases r)
      case (Inl e)
      then show ?thesis using integrate_h_throw [OF g r [unfolded Inl]] by simp
    next
      case (Inr s')
      note st = r [unfolded Inr]
      show ?thesis
      proof (cases "hasInvalidValues (arr hp1 s')")
        case True
        then show ?thesis using integrate_h_unstable [OF g st True] by simp
      next
        case False
        show ?thesis
        proof (cases "max_array_length \<le> length pts")
          case True
          then show ?thesis using integrate_h_full [OF g st False True] by simp
        next
          case room: False
          then have l: "length pts < max_array_length" by simp
          let ?p = "\<lparr>hp_t = fadd t h, hp_state = length hp1\<rparr>"
          have "max_array_length - length (pts @ [?p]) < max_array_length - length pts"
            using l by simp
          from less [OF this] show ?thesis
            unfolding integrate_h_step [OF g st False l] by blast
        qed
      qed
    qed
  qed
qed

lemma solveODE_h_loop:
  "solveODE_h system hc hp =
     (case solveODE_loop_h system hc hp of
        None \<Rightarrow> None
      | Some (hp3, Inl e) \<Rightarrow> Some (hp3, Inl e)
      | Some (hp3, Inr (t, state', stepCount, pts)) \<Rightarrow>
          if fge stepCount (max_steps (read_config hp hc)) then Some (hp3, Inl StepsExceeded)
          else Some (hp3, Inr pts))"
proof -
  have ms: "max_steps (read_config hp hc) = fadd (fceil (fdiv (h_tMax hc) (h_dt hc))) (Fin 1)"
    by (simp add: max_steps_def read_config_def)
  show ?thesis
    unfolding solveODE_h_def solveODE_loop_h_def ms Let_def alloc_def
    by (simp split: option.splits)
qed

text \<open>The loop of a run on the store, entered with the copies of the initial conditions.\<close>

lemma solveODE_loop_h_valid:
  assumes "validateSolverConfig (read_config hp hc) system = None"
    and "\<not> hasInvalidValues (arr hp (h_initialConditions hc))"
  shows "solveODE_loop_h system hc hp =
    integrate_h (equations system) (h_parameters hc) (h_dt hc) (h_tMax hc)
      (max_steps (read_config hp hc))
      (Fin 0, length hp, Fin 0, [\<lparr>hp_t = Fin 0, hp_state = Suc (length hp)\<rparr>])
      (hp @ [Arr (arr hp (h_initialConditions hc)), Arr (arr hp (h_initialConditions hc))])"
proof -
  have ms: "max_steps (read_config hp hc) = fadd (fceil (fdiv (h_tMax hc) (h_dt hc))) (Fin 1)"
    by (simp add: max_steps_def read_config_def)
  show ?thesis
    unfolding solveODE_loop_h_def alloc_def Let_def ms using assms by simp
qed

lemma solveODE_loop_h_refines:
  assumes "solveODE_loop_h system hc hp = Some (hp', r)"
    and "h_initialConditions hc < length hp" "h_parameters hc < length hp"
    and "validateSolverConfig (read_config hp hc) system = None"
    and "\<not> hasInvalidValues (arr hp (h_initialConditions hc))"
  shows "extends hp hp' \<and>
    (case r of
       Inl e \<Rightarrow> integrate (equations system) (cfg_parameters (read_config hp hc))
                  (dt (read_config hp hc)) (tMax (read_config hp hc))
                  (max_steps (read_config hp hc)) (initial_vars (read_config hp hc))
                = Some (Inl e)
     | Inr vars' \<Rightarrow> integrate (equations system) (cfg_parameters (read_config hp hc))
                  (dt (read_config hp hc)) (tMax (read_config hp hc))
                  (max_steps (read_config hp hc)) (initial_vars (read_config hp hc))
                = Some (Inr (vars_of hp' vars')) \<and> separate (length hp) hp' vars')"
proof -
  let ?c = "read_config hp hc"
  let ?ic = "arr hp (h_initialConditions hc)"
  let ?hp2 = "hp @ [Arr ?ic, Arr ?ic]"
  let ?v = "(Fin 0, length hp, Fin 0, [\<lparr>hp_t = Fin 0, hp_state = Suc (length hp)\<rparr>])"
  have a1: "arr ?hp2 (length hp) = ?ic" by (simp add: arr_def nth_append)
  have a2: "arr ?hp2 (Suc (length hp)) = ?ic" by (simp add: arr_def nth_append)
  have sep: "separate (length hp) ?hp2 ?v" by (simp add: separate_def)
  have p: "h_parameters hc < length ?hp2" using assms(3) by simp
  have o: "obj ?hp2 (h_parameters hc) = cfg_parameters ?c"
    using assms(3) by (simp add: read_config_def)
  have v: "vars_of ?hp2 ?v = initial_vars ?c"
    unfolding vars_of_def initial_vars_def points_of_def using a1 a2
    by (simp add: read_config_def)
  have d: "h_dt hc = dt ?c" "h_tMax hc = tMax ?c" by (simp_all add: read_config_def)
  have e: "extends hp ?hp2" by simp
  note R = integrate_h_refines [OF assms(1) [unfolded solveODE_loop_h_valid [OF assms(4,5)]] sep p,
      unfolded o v, folded d]
  show ?thesis using R extends_trans [OF e] by (auto simp: d split: sum.splits)
qed

lemma solveODE_h_refines:
  assumes "h_initialConditions hc < length hp" "h_parameters hc < length hp"
  shows "map_option (outcome_of system) (solveODE_h system hc hp)
           = solveODE system (read_config hp hc)"
proof (cases "validateSolverConfig (read_config hp hc) system")
  case (Some e)
  then show ?thesis by (simp add: solveODE_h_def solveODE_def outcome_of_def)
next
  case None
  let ?c = "read_config hp hc"
  let ?ic = "arr hp (h_initialConditions hc)"
  have ic: "initialConditions ?c = ?ic" by (simp add: read_config_def)
  show ?thesis
  proof (cases "hasInvalidValues ?ic")
    case True
    then show ?thesis using None
      by (simp add: solveODE_h_def solveODE_def outcome_of_def alloc_def ic)
  next
    case False
    from integrate_h_terminates obtain res where
      L: "solveODE_loop_h system hc hp = Some res"
      unfolding solveODE_loop_h_valid [OF None False] by blast
    obtain hp' r where res: "res = (hp', r)" by (cases res) auto
    note R = solveODE_loop_h_refines [OF L [unfolded res] assms None False]
    note S = solveODE_valid [OF None, unfolded ic, OF False]
    show ?thesis
    proof (cases r)
      case (Inl e)
      then show ?thesis using R unfolding solveODE_h_loop L res S by (simp add: outcome_of_def)
    next
      case (Inr vars')
      obtain t' s' c' pts' where vars': "vars' = (t', s', c', pts')" by (cases vars') auto
      show ?thesis using R unfolding solveODE_h_loop L res S Inr vars'
        by (simp add: outcome_of_def vars_of_def)
    qed
  qed
qed





section \<open>The trajectory of a successful run\<close>

text \<open>
  A trajectory returned by \<open>solveODE\<close> starts with the point
  \<open>(0, initialConditions)\<close>; every later point comes from the one before it by one RK4 step,
  its time being the previous time plus \<open>dt\<close> (in floating point); the times are strictly
  increasing; and the loop's step counter ends at the number of points minus one, which
  is less than \<open>2\<^sup>3\<^sup>2\<close>.
\<close>

lemma trajectory_shape:
  assumes "solveODE s c = Some (Inr traj)"
  shows "points traj \<noteq> [] \<and>
    hd (points traj) = \<lparr>pt_t = Fin 0, pt_state = initialConditions c\<rparr> \<and>
    variables traj = stateVariables s \<and>
    successively (rk4_successor (equations s) (cfg_parameters c) (dt c)) (points traj) \<and>
    sorted_wrt flt (map pt_t (points traj)) \<and>
    (\<exists>t' s' c'. integrate (equations s) (cfg_parameters c) (dt c) (tMax c) (max_steps c)
        (initial_vars c) = Some (Inr (t', s', c', points traj)) \<and>
      c' = Fin (of_nat (length (points traj) - 1)) \<and>
      length (points traj) \<le> max_array_length)"
proof -
  from solveODE_Inr [OF assms] obtain t' s' c' where
    v: "validateSolverConfig c s = None" and vars: "variables traj = stateVariables s"
    and run: "integrate (equations s) (cfg_parameters c) (dt c) (tMax c) (max_steps c)
        (Fin 0, initialConditions c, Fin 0, [\<lparr>pt_t = Fin 0, pt_state = initialConditions c\<rparr>])
        = Some (Inr (t', s', c', points traj))"
    and ok: "\<not> fge c' (max_steps c)"
    unfolding initial_vars_def by blast
  from valid_config [OF v] obtain d where d: "dt c = Fin d" "0 < d" by blast
  note pts = integrate_points [OF run]
  have p: "(\<exists>rest. points traj = [\<lparr>pt_t = Fin 0, pt_state = initialConditions c\<rparr>] @ rest)"
    "successively (rk4_successor (equations s) (cfg_parameters c) (dt c)) (points traj)"
    using pts by simp_all
  have nd: "nonneg_double (Fin 0)" by (simp add: nonneg_double_def rnd_def)
  have inc: "sorted_wrt flt (map pt_t (points traj))"
    using integrate_increasing [OF run [unfolded d] d(2) max_steps_not_NaN [OF v] ok _ nd]
    by simp
  have cnt: "c' = Fin (of_nat (length (points traj) - 1)) \<and>
      length (points traj) \<le> max_array_length"
    using integrate_count [OF run] by (simp add: max_array_length_def)
  show ?thesis
    using p vars inc cnt run unfolding initial_vars_def by auto
qed

text \<open>Exponential decay from \<open>x = 1\<close> with \<open>dt = 1/4\<close> and \<open>tMax = 1/2\<close>: two steps, three points.\<close>

lemma decay_step_1:
  "rk4Step decay_equations [Fin 1] Map.empty (Fin (1 / 4)) = Inr [Fin (1595 / 2048)]"
  by (simp add: rk4Step_def add_def scale_def decay_equations_def float_eval)

lemma decay_step_2:
  "rk4Step decay_equations [Fin (1595 / 2048)] Map.empty (Fin (1 / 4))
     = Inr [Fin (2544025 / 4194304)]"
  by (simp add: rk4Step_def add_def scale_def decay_equations_def float_eval)

lemma decay_run:
  "solveODE (test_system decay_equations)
     \<lparr>dt = Fin (1 / 4), tMax = Fin (1 / 2), initialConditions = [Fin 1],
      cfg_parameters = Map.empty\<rparr>
   = Some (Inr \<lparr>points =
       [\<lparr>pt_t = Fin 0, pt_state = [Fin 1]\<rparr>,
        \<lparr>pt_t = Fin (1 / 4), pt_state = [Fin (1595 / 2048)]\<rparr>,
        \<lparr>pt_t = Fin (1 / 2), pt_state = [Fin (2544025 / 4194304)]\<rparr>],
       variables = [''x'']\<rparr>)"
  apply (simp add: solveODE_def validateSolverConfig_def test_system_def hasInvalidValues_def
      fle_def fgt_def flt_def fge_def)
  apply (subst integrate.simps,
      simp add: decay_step_1 decay_step_2 hasInvalidValues_def max_array_length_def flt_def
        float_eval)+
  apply (simp add: fle_def fge_def float_eval)
  done

lemma trajectory_shape_decay:
  "solveODE (test_system decay_equations)
     \<lparr>dt = Fin (1 / 4), tMax = Fin (1 / 2), initialConditions = [Fin 1],
      cfg_parameters = Map.empty\<rparr>
   = Some (Inr \<lparr>points =
       [\<lparr>pt_t = Fin 0, pt_state = [Fin 1]\<rparr>,
        \<lparr>pt_t = Fin (1 / 4), pt_state = [Fin (1595 / 2048)]\<rparr>,
        \<lparr>pt_t = Fin (1 / 2), pt_state = [Fin (2544025 / 4194304)]\<rparr>],
       variables = [''x'']\<rparr>) \<and>
   sorted_wrt flt [Fin 0, Fin (1 / 4), Fin (1 / 2)] \<and>
   successively (rk4_successor decay_equations Map.empty (Fin (1 / 4)))
       [\<lparr>pt_t = Fin 0, pt_state = [Fin 1]\<rparr>,
        \<lparr>pt_t = Fin (1 / 4), pt_state = [Fin (1595 / 2048)]\<rparr>,
        \<lparr>pt_t = Fin (1 / 2), pt_state = [Fin (2544025 / 4194304)]\<rparr>]"
  using trajectory_shape [OF decay_run] decay_run by (simp add: test_system_def)

section \<open>A finite run without a trajectory\<close>

lemma lv_default_parameters [simp]:
  "lookup_num (default_parameters lotkaVolterraSystem) ''alpha'' = Fin (3 / 2)"
  "lookup_num (default_parameters lotkaVolterraSystem) ''beta'' = Fin 1"
  "lookup_num (default_parameters lotkaVolterraSystem) ''delta'' = Fin 1"
  "lookup_num (default_parameters lotkaVolterraSystem) ''gamma'' = Fin 3"
  by (simp_all add: lookup_num_def default_parameters_def lotkaVolterraSystem_def float_eval)

lemma lv_fields [simp]:
  "equations lotkaVolterraSystem = lotka_volterra_equations"
  "stateVariables lotkaVolterraSystem = [''Prey'', ''Predator'']"
  "defaultInitialConditions lotkaVolterraSystem = [Fin 10, Fin 5]"
  by (simp_all add: lotkaVolterraSystem_def)

lemma lv_default_config:
  "default_config lotkaVolterraSystem h tmax =
     \<lparr>dt = h, tMax = tmax, initialConditions = [Fin 10, Fin 5],
      cfg_parameters = default_parameters lotkaVolterraSystem\<rparr>"
  by (simp add: default_config_def)

lemma lv_default_valid:
  "validateParameterValues (default_parameters lotkaVolterraSystem)
     (parameters lotkaVolterraSystem) = None"
  "filter (\<lambda>n. \<not> has_property (default_parameters lotkaVolterraSystem) n)
     (map name (parameters lotkaVolterraSystem)) = []"
  by (simp_all add: lookup_num_def has_property_def default_parameters_def
      lotkaVolterraSystem_def flt_def fgt_def float_eval)

lemma rnd_3_20: "rnd (3 / 20) = Fin (5404319552844595 / 36028797018963968)"
  by (simp add: float_eval)

lemma rnd_9_20: "rnd (9 / 20) = Fin (8106479329266893 / 18014398509481984)"
  by (simp add: float_eval)

lemma lv_step_1:
  "rk4Step lotka_volterra_equations [Fin 10, Fin 5] (default_parameters lotkaVolterraSystem)
     (Fin (5404319552844595 / 36028797018963968))
   = Inr [Fin (4635037182671117 / 1125899906842624), Fin (2571321144838343 / 281474976710656)]"
  by (simp add: rk4Step_def add_def scale_def lotka_volterra_equations_def elem_def float_eval)

lemma lv_step_2:
  "rk4Step lotka_volterra_equations [Fin (4635037182671117 / 1125899906842624), Fin (2571321144838343 / 281474976710656)] (default_parameters lotkaVolterraSystem)
     (Fin (5404319552844595 / 36028797018963968))
   = Inr [Fin (3094708058507251 / 2251799813685248), Fin (4696195755915185 / 562949953421312)]"
  by (simp add: rk4Step_def add_def scale_def lotka_volterra_equations_def elem_def float_eval)

lemma lv_step_3:
  "rk4Step lotka_volterra_equations [Fin (3094708058507251 / 2251799813685248), Fin (4696195755915185 / 562949953421312)] (default_parameters lotkaVolterraSystem)
     (Fin (5404319552844595 / 36028797018963968))
   = Inr [Fin (20644904440379 / 35184372088832), Fin (854741732312225 / 140737488355328)]"
  by (simp add: rk4Step_def add_def scale_def lotka_volterra_equations_def elem_def float_eval)

lemma lv_step_4:
  "rk4Step lotka_volterra_equations [Fin (20644904440379 / 35184372088832), Fin (854741732312225 / 140737488355328)] (default_parameters lotkaVolterraSystem)
     (Fin (5404319552844595 / 36028797018963968))
   = Inr [Fin (6192127656615559 / 18014398509481984), Fin (2329628825671285 / 562949953421312)]"
  by (simp add: rk4Step_def add_def scale_def lotka_volterra_equations_def elem_def float_eval)

lemma lv_reaches_0:
  "reaches lotka_volterra_equations (default_parameters lotkaVolterraSystem)
     (Fin (5404319552844595 / 36028797018963968)) (Fin (8106479329266893 / 18014398509481984)) (Fin 4)
     (Fin 0, [Fin 10, Fin 5], Fin 0, [\<lparr>pt_t = Fin 0, pt_state = [Fin 10, Fin 5]\<rparr>])
     (Fin 0, [Fin 10, Fin 5], Fin 0,
     [\<lparr>pt_t = Fin 0, pt_state = [Fin 10, Fin 5]\<rparr>])"
  by (rule reaches_start)

lemma lv_reaches_1:
  "reaches lotka_volterra_equations (default_parameters lotkaVolterraSystem)
     (Fin (5404319552844595 / 36028797018963968)) (Fin (8106479329266893 / 18014398509481984)) (Fin 4)
     (Fin 0, [Fin 10, Fin 5], Fin 0, [\<lparr>pt_t = Fin 0, pt_state = [Fin 10, Fin 5]\<rparr>])
     (Fin (5404319552844595 / 36028797018963968), [Fin (4635037182671117 / 1125899906842624), Fin (2571321144838343 / 281474976710656)], Fin 1,
     [\<lparr>pt_t = Fin 0, pt_state = [Fin 10, Fin 5]\<rparr>,
      \<lparr>pt_t = Fin (5404319552844595 / 36028797018963968), pt_state = [Fin (4635037182671117 / 1125899906842624), Fin (2571321144838343 / 281474976710656)]\<rparr>])"
  using reaches_step [OF lv_reaches_0 _ _ lv_step_1]
  by (simp add: flt_def hasInvalidValues_def max_array_length_def float_eval)

lemma lv_reaches_2:
  "reaches lotka_volterra_equations (default_parameters lotkaVolterraSystem)
     (Fin (5404319552844595 / 36028797018963968)) (Fin (8106479329266893 / 18014398509481984)) (Fin 4)
     (Fin 0, [Fin 10, Fin 5], Fin 0, [\<lparr>pt_t = Fin 0, pt_state = [Fin 10, Fin 5]\<rparr>])
     (Fin (5404319552844595 / 18014398509481984), [Fin (3094708058507251 / 2251799813685248), Fin (4696195755915185 / 562949953421312)], Fin 2,
     [\<lparr>pt_t = Fin 0, pt_state = [Fin 10, Fin 5]\<rparr>,
      \<lparr>pt_t = Fin (5404319552844595 / 36028797018963968), pt_state = [Fin (4635037182671117 / 1125899906842624), Fin (2571321144838343 / 281474976710656)]\<rparr>,
      \<lparr>pt_t = Fin (5404319552844595 / 18014398509481984), pt_state = [Fin (3094708058507251 / 2251799813685248), Fin (4696195755915185 / 562949953421312)]\<rparr>])"
  using reaches_step [OF lv_reaches_1 _ _ lv_step_2]
  by (simp add: flt_def hasInvalidValues_def max_array_length_def float_eval)

lemma lv_reaches_3:
  "reaches lotka_volterra_equations (default_parameters lotkaVolterraSystem)
     (Fin (5404319552844595 / 36028797018963968)) (Fin (8106479329266893 / 18014398509481984)) (Fin 4)
     (Fin 0, [Fin 10, Fin 5], Fin 0, [\<lparr>pt_t = Fin 0, pt_state = [Fin 10, Fin 5]\<rparr>])
     (Fin (2026619832316723 / 4503599627370496), [Fin (20644904440379 / 35184372088832), Fin (854741732312225 / 140737488355328)], Fin 3,
     [\<lparr>pt_t = Fin 0, pt_state = [Fin 10, Fin 5]\<rparr>,
      \<lparr>pt_t = Fin (5404319552844595 / 36028797018963968), pt_state = [Fin (4635037182671117 / 1125899906842624), Fin (2571321144838343 / 281474976710656)]\<rparr>,
      \<lparr>pt_t = Fin (5404319552844595 / 18014398509481984), pt_state = [Fin (3094708058507251 / 2251799813685248), Fin (4696195755915185 / 562949953421312)]\<rparr>,
      \<lparr>pt_t = Fin (2026619832316723 / 4503599627370496), pt_state = [Fin (20644904440379 / 35184372088832), Fin (854741732312225 / 140737488355328)]\<rparr>])"
  using reaches_step [OF lv_reaches_2 _ _ lv_step_3]
  by (simp add: flt_def hasInvalidValues_def max_array_length_def float_eval)

lemma lv_reaches_4:
  "reaches lotka_volterra_equations (default_parameters lotkaVolterraSystem)
     (Fin (5404319552844595 / 36028797018963968)) (Fin (8106479329266893 / 18014398509481984)) (Fin 4)
     (Fin 0, [Fin 10, Fin 5], Fin 0, [\<lparr>pt_t = Fin 0, pt_state = [Fin 10, Fin 5]\<rparr>])
     (Fin (5404319552844595 / 9007199254740992), [Fin (6192127656615559 / 18014398509481984), Fin (2329628825671285 / 562949953421312)], Fin 4,
     [\<lparr>pt_t = Fin 0, pt_state = [Fin 10, Fin 5]\<rparr>,
      \<lparr>pt_t = Fin (5404319552844595 / 36028797018963968), pt_state = [Fin (4635037182671117 / 1125899906842624), Fin (2571321144838343 / 281474976710656)]\<rparr>,
      \<lparr>pt_t = Fin (5404319552844595 / 18014398509481984), pt_state = [Fin (3094708058507251 / 2251799813685248), Fin (4696195755915185 / 562949953421312)]\<rparr>,
      \<lparr>pt_t = Fin (2026619832316723 / 4503599627370496), pt_state = [Fin (20644904440379 / 35184372088832), Fin (854741732312225 / 140737488355328)]\<rparr>,
      \<lparr>pt_t = Fin (5404319552844595 / 9007199254740992), pt_state = [Fin (6192127656615559 / 18014398509481984), Fin (2329628825671285 / 562949953421312)]\<rparr>])"
  using reaches_step [OF lv_reaches_3 _ _ lv_step_4]
  by (simp add: flt_def hasInvalidValues_def max_array_length_def float_eval)

lemma lv_max_steps:
  "max_steps (default_config lotkaVolterraSystem (rnd (3 / 20)) (rnd (9 / 20))) = Fin 4"
  by (simp add: max_steps_def lv_default_config rnd_3_20 rnd_9_20)
     (simp add: float_eval)

text \<open>
  C3 at the Lotka-Volterra system with its default parameters and initial conditions,
  \<open>dt = 0.15\<close> and \<open>tMax = 0.45\<close>.  The configuration is valid.  The loop runs four complete
  iterations, every state finite; the points are the initial one and one for each step,
  at times that strictly increase, each the floating-point sum of the one before it and
  \<open>dt\<close>: \<open>0\<close>, \<open>0.15\<close>, \<open>0.3\<close>, \<open>0.44999999999999996\<close>, \<open>0.6\<close>.  The last time is not less
  than \<open>tMax\<close>, so the horizon is covered.  Nevertheless no trajectory is produced:
  \<open>solveODE\<close> throws the error of the step budget, the fourth step being the last one the
  cap \<open>ceil(tMax / dt) + 1 = 4\<close> permits.
\<close>

theorem solveODE_finite_run_without_trajectory:
  "validateSolverConfig (default_config lotkaVolterraSystem (rnd (3 / 20)) (rnd (9 / 20)))
     lotkaVolterraSystem = None \<and>
   reaches lotka_volterra_equations (default_parameters lotkaVolterraSystem)
     (rnd (3 / 20)) (rnd (9 / 20))
     (max_steps (default_config lotkaVolterraSystem (rnd (3 / 20)) (rnd (9 / 20))))
     (initial_vars (default_config lotkaVolterraSystem (rnd (3 / 20)) (rnd (9 / 20))))
     (pt_t (last lv_points), pt_state (last lv_points), Fin 4, lv_points) \<and>
   \<not> flt (pt_t (last lv_points)) (rnd (9 / 20)) \<and>
   length lv_points = 4 + 1 \<and>
   list_all (\<lambda>p. \<not> hasInvalidValues (pt_state p)) lv_points \<and>
   successively (\<lambda>p q. pt_t q = fadd (pt_t p) (rnd (3 / 20)) \<and> flt (pt_t p) (pt_t q))
     lv_points \<and>
   solveODE lotkaVolterraSystem
     (default_config lotkaVolterraSystem (rnd (3 / 20)) (rnd (9 / 20)))
     = Some (Inl StepsExceeded)"
proof -
  let ?c = "default_config lotkaVolterraSystem (rnd (3 / 20)) (rnd (9 / 20))"
  have v: "validateSolverConfig ?c lotkaVolterraSystem = None"
    by (simp add: validateSolverConfig_def lv_default_config lv_default_valid
        rnd_3_20 rnd_9_20 fle_def fgt_def flt_def)
  have i: "\<not> hasInvalidValues (initialConditions ?c)"
    by (simp add: lv_default_config hasInvalidValues_def)
  note m = lv_max_steps
  have f: "equations lotkaVolterraSystem = lotka_volterra_equations"
    "cfg_parameters ?c = default_parameters lotkaVolterraSystem"
    "dt ?c = rnd (3 / 20)" "tMax ?c = rnd (9 / 20)"
    by (simp_all add: default_config_def)
  have iv: "initial_vars ?c
      = (Fin 0, [Fin 10, Fin 5], Fin 0, [\<lparr>pt_t = Fin 0, pt_state = [Fin 10, Fin 5]\<rparr>])"
    by (simp add: initial_vars_def default_config_def)
  have R0: "reaches lotka_volterra_equations (default_parameters lotkaVolterraSystem)
     (rnd (3 / 20)) (rnd (9 / 20)) (Fin 4)
     (Fin 0, [Fin 10, Fin 5], Fin 0, [\<lparr>pt_t = Fin 0, pt_state = [Fin 10, Fin 5]\<rparr>])
     (pt_t (last lv_points), pt_state (last lv_points), Fin 4, lv_points)"
    unfolding rnd_3_20 rnd_9_20 using lv_reaches_4 by (simp add: lv_points_def)
  have R: "reaches lotka_volterra_equations (default_parameters lotkaVolterraSystem)
     (rnd (3 / 20)) (rnd (9 / 20)) (max_steps ?c) (initial_vars ?c)
     (pt_t (last lv_points), pt_state (last lv_points), Fin 4, lv_points)"
    unfolding m iv by (rule R0)
  have E: "\<not> flt (pt_t (last lv_points)) (rnd (9 / 20))"
    unfolding rnd_9_20 by (simp add: lv_points_def flt_def)
  have X: "integrate lotka_volterra_equations (default_parameters lotkaVolterraSystem)
     (rnd (3 / 20)) (rnd (9 / 20)) (max_steps ?c) (initial_vars ?c)
     = Some (Inr (pt_t (last lv_points), pt_state (last lv_points), Fin 4, lv_points))"
    unfolding reaches_integrate [OF R] using E by (simp add: integrate_exit)
  have S: "solveODE lotkaVolterraSystem ?c = Some (Inl StepsExceeded)"
    unfolding solveODE_valid [OF v i] f X by (simp add: m fge_def fle_def)
  have P: "list_all (\<lambda>p. \<not> hasInvalidValues (pt_state p)) lv_points"
    by (simp add: lv_points_def hasInvalidValues_def)
  have T: "successively (\<lambda>p q. pt_t q = fadd (pt_t p) (rnd (3 / 20)) \<and> flt (pt_t p) (pt_t q))
     lv_points"
    unfolding rnd_3_20 by (simp add: lv_points_def flt_def float_eval)
  have N: "length lv_points = 4 + 1" by (simp add: lv_points_def)
  from v R E N P T S show ?thesis by (intro conjI)
qed

section \<open>A run that reaches \<open>tMax\<close> on its last permitted step\<close>

lemma lorenz_default_parameters [simp]:
  "lookup_num (default_parameters lorenzSystem) ''sigma'' = Fin 10"
  "lookup_num (default_parameters lorenzSystem) ''rho'' = Fin 28"
  "lookup_num (default_parameters lorenzSystem) ''beta'' = Fin (6004799503160661 / 2251799813685248)"
  by (simp_all add: lookup_num_def default_parameters_def lorenzSystem_def float_eval)

lemma lorenz_fields [simp]:
  "equations lorenzSystem = lorenz_equations"
  "stateVariables lorenzSystem = [''x'', ''y'', ''z'']"
  "defaultInitialConditions lorenzSystem = [Fin 1, Fin 1, Fin 1]"
  by (simp_all add: lorenzSystem_def)

lemma lorenz_default_config:
  "default_config lorenzSystem h tmax =
     \<lparr>dt = h, tMax = tmax, initialConditions = [Fin 1, Fin 1, Fin 1],
      cfg_parameters = default_parameters lorenzSystem\<rparr>"
  by (simp add: default_config_def)

lemma lorenz_default_valid:
  "validateParameterValues (default_parameters lorenzSystem) (parameters lorenzSystem) = None"
  "filter (\<lambda>n. \<not> has_property (default_parameters lorenzSystem) n) (map name (parameters lorenzSystem)) = []"
  by (simp_all add: lookup_num_def has_property_def default_parameters_def lorenzSystem_def flt_def fgt_def
      float_eval)

lemma rnd_9_1000: "rnd (9 / 1000) = Fin (5188146770730811 / 576460752303423488)"
  by (simp add: float_eval)

lemma rnd_27_1000: "rnd (27 / 1000) = Fin (7782220156096217 / 288230376151711744)"
  by (simp add: float_eval)

lemma lorenz_step_1:
  "rk4Step lorenz_equations [Fin 1, Fin 1, Fin 1] (default_parameters lorenzSystem)
     (Fin (5188146770730811 / 576460752303423488))
   = Inr [Fin (2274794038375637 / 2251799813685248), Fin (5556739590507795 / 4503599627370496), Fin (2220855882818193 / 2251799813685248)]"
  by (simp add: rk4Step_def add_def scale_def lorenz_equations_def elem_def float_eval)

lemma lorenz_step_2:
  "rk4Step lorenz_equations [Fin (2274794038375637 / 2251799813685248), Fin (5556739590507795 / 4503599627370496), Fin (2220855882818193 / 2251799813685248)] (default_parameters lorenzSystem)
     (Fin (5188146770730811 / 576460752303423488))
   = Inr [Fin (4682672985162631 / 4503599627370496), Fin (6622774518467331 / 4503599627370496), Fin (4391832361045703 / 4503599627370496)]"
  by (simp add: rk4Step_def add_def scale_def lorenz_equations_def elem_def float_eval)

lemma lorenz_step_3:
  "rk4Step lorenz_equations [Fin (4682672985162631 / 4503599627370496), Fin (6622774518467331 / 4503599627370496), Fin (4391832361045703 / 4503599627370496)] (default_parameters lorenzSystem)
     (Fin (5188146770730811 / 576460752303423488))
   = Inr [Fin (2448679850829851 / 2251799813685248), Fin (7721868856344985 / 4503599627370496), Fin (8710920246386169 / 9007199254740992)]"
  by (simp add: rk4Step_def add_def scale_def lorenz_equations_def elem_def float_eval)

lemma lorenz_step_4:
  "rk4Step lorenz_equations [Fin (2448679850829851 / 2251799813685248), Fin (7721868856344985 / 4503599627370496), Fin (8710920246386169 / 9007199254740992)] (default_parameters lorenzSystem)
     (Fin (5188146770730811 / 576460752303423488))
   = Inr [Fin (5190303543976651 / 4503599627370496), Fin (8872932604740415 / 4503599627370496), Fin (8669488463565001 / 9007199254740992)]"
  by (simp add: rk4Step_def add_def scale_def lorenz_equations_def elem_def float_eval)

lemma lorenz_budget_loop:
  "integrate lorenz_equations (default_parameters lorenzSystem) (Fin (5188146770730811 / 576460752303423488)) (Fin (7782220156096217 / 288230376151711744)) (Fin 4)
     (Fin 0, [Fin 1, Fin 1, Fin 1], Fin 0, [\<lparr>pt_t = Fin 0, pt_state = [Fin 1, Fin 1, Fin 1]\<rparr>])
   = Some (Inr (Fin (5188146770730811 / 144115188075855872), [Fin (5190303543976651 / 4503599627370496), Fin (8872932604740415 / 4503599627370496), Fin (8669488463565001 / 9007199254740992)], Fin 4,
     [\<lparr>pt_t = Fin 0, pt_state = [Fin 1, Fin 1, Fin 1]\<rparr>,
      \<lparr>pt_t = Fin (5188146770730811 / 576460752303423488), pt_state = [Fin (2274794038375637 / 2251799813685248), Fin (5556739590507795 / 4503599627370496), Fin (2220855882818193 / 2251799813685248)]\<rparr>,
      \<lparr>pt_t = Fin (5188146770730811 / 288230376151711744), pt_state = [Fin (4682672985162631 / 4503599627370496), Fin (6622774518467331 / 4503599627370496), Fin (4391832361045703 / 4503599627370496)]\<rparr>,
      \<lparr>pt_t = Fin (972777519512027 / 36028797018963968), pt_state = [Fin (2448679850829851 / 2251799813685248), Fin (7721868856344985 / 4503599627370496), Fin (8710920246386169 / 9007199254740992)]\<rparr>,
      \<lparr>pt_t = Fin (5188146770730811 / 144115188075855872), pt_state = [Fin (5190303543976651 / 4503599627370496), Fin (8872932604740415 / 4503599627370496), Fin (8669488463565001 / 9007199254740992)]\<rparr>]))"
  by (subst integrate.simps,
      simp add: lorenz_step_1 lorenz_step_2 lorenz_step_3 lorenz_step_4 hasInvalidValues_def
        max_array_length_def flt_def float_eval)+

lemma lorenz_budget_max_steps:
  "max_steps (default_config lorenzSystem (rnd (9 / 1000)) (rnd (27 / 1000))) = Fin 4"
  by (simp add: max_steps_def lorenz_default_config rnd_9_1000 rnd_27_1000)
     (simp add: float_eval)

text \<open>
  C2 at the Lorenz system with its default parameters and initial conditions, \<open>dt = 0.009\<close>
  and \<open>tMax = 0.027\<close>.  Three additions of \<open>dt\<close> give a time just below \<open>tMax\<close>, so the loop
  takes a fourth step, which is the last one the cap \<open>ceil(tMax / dt) + 1 = 4\<close> permits.
  The loop then exits with \<open>t = 0.036 \<ge> tMax\<close>, every state finite, and \<open>stepCount = 4\<close>; the
  test \<^verbatim>\<open>stepCount >= maxSteps\<close> after the loop throws all the same.
\<close>

theorem solveODE_budget_exceeded_at_tMax:
  "validateSolverConfig (default_config lorenzSystem (rnd (9 / 1000)) (rnd (27 / 1000)))
     lorenzSystem = None \<and>
   max_steps (default_config lorenzSystem (rnd (9 / 1000)) (rnd (27 / 1000))) = Fin 4 \<and>
   (case integrate lorenz_equations (default_parameters lorenzSystem) (rnd (9 / 1000))
           (rnd (27 / 1000)) (Fin 4)
           (initial_vars (default_config lorenzSystem (rnd (9 / 1000)) (rnd (27 / 1000)))) of
      Some (Inr (t, state, stepCount, pts)) \<Rightarrow>
        fge t (rnd (27 / 1000)) \<and> \<not> hasInvalidValues state \<and> stepCount = Fin 4 \<and> length pts = 5
    | _ \<Rightarrow> False) \<and>
   solveODE lorenzSystem (default_config lorenzSystem (rnd (9 / 1000)) (rnd (27 / 1000)))
     = Some (Inl StepsExceeded)"
proof -
  let ?c = "default_config lorenzSystem (rnd (9 / 1000)) (rnd (27 / 1000))"
  have v: "validateSolverConfig ?c lorenzSystem = None"
    by (simp add: validateSolverConfig_def lorenz_default_config lorenz_default_valid
        rnd_9_1000 rnd_27_1000 fle_def fgt_def flt_def)
  have i: "\<not> hasInvalidValues (initialConditions ?c)"
    by (simp add: lorenz_default_config hasInvalidValues_def)
  note m = lorenz_budget_max_steps
  have f: "equations lorenzSystem = lorenz_equations"
    "cfg_parameters ?c = default_parameters lorenzSystem"
    "dt ?c = rnd (9 / 1000)" "tMax ?c = rnd (27 / 1000)"
    by (simp_all add: default_config_def)
  have iv: "initial_vars ?c
      = (Fin 0, [Fin 1, Fin 1, Fin 1], Fin 0, [\<lparr>pt_t = Fin 0, pt_state = [Fin 1, Fin 1, Fin 1]\<rparr>])"
    by (simp add: initial_vars_def default_config_def)
  have L: "(case integrate lorenz_equations (default_parameters lorenzSystem) (rnd (9 / 1000))
           (rnd (27 / 1000)) (Fin 4) (initial_vars ?c) of
      Some (Inr (t, state, stepCount, pts)) \<Rightarrow>
        fge t (rnd (27 / 1000)) \<and> \<not> hasInvalidValues state \<and> stepCount = Fin 4 \<and> length pts = 5
    | _ \<Rightarrow> False)"
    unfolding iv
    by (simp only: rnd_9_1000 rnd_27_1000 lorenz_budget_loop)
       (simp add: fge_def fle_def hasInvalidValues_def)
  have S: "solveODE lorenzSystem ?c = Some (Inl StepsExceeded)"
    unfolding solveODE_valid [OF v i] f m iv
    by (simp only: rnd_9_1000 rnd_27_1000 lorenz_budget_loop) (simp add: fge_def fle_def)
  from v m L S show ?thesis by (intro conjI)
qed

section \<open>Numerical breakdown\<close>

lemma reciprocal_breakdown:
  "rk4Step reciprocal_equations [Fin 0] Map.empty (Fin 1) = Inr [PInf]"
  "rk4Step reciprocal_equations [Fin 0] Map.empty (Fin (1 / 4)) = Inr [PInf]"
  "rk4Step reciprocal_equations [Fin 0] Map.empty (Fin (1 / 1024)) = Inr [PInf]"
  by (simp_all add: rk4Step_def add_def scale_def reciprocal_equations_def float_eval)

lemma reciprocal_valid:
  "validateSolverConfig
     \<lparr>dt = Fin h, tMax = Fin 1, initialConditions = [Fin 0], cfg_parameters = Map.empty\<rparr>
     (test_system reciprocal_equations)
   = (if h \<le> 0 then Some DtNotPositive else if 1 < h then Some DtLargerThanTMax else None)"
  by (simp add: validateSolverConfig_def test_system_def fle_def fgt_def flt_def)

lemma reciprocal_first_step:
  assumes "0 < h" "h \<le> 1"
    and "rk4Step reciprocal_equations [Fin 0] Map.empty (Fin h) = Inr [PInf]"
    and "flt (Fin 0) (max_steps \<lparr>dt = Fin h, tMax = Fin 1, initialConditions = [Fin 0],
           cfg_parameters = Map.empty\<rparr>)"
  shows "solveODESafe (test_system reciprocal_equations)
     \<lparr>dt = Fin h, tMax = Fin 1, initialConditions = [Fin 0], cfg_parameters = Map.empty\<rparr>
   = Some (Failure (NumericalInstability (toFixed2 (rnd h))))"
proof -
  let ?c = "\<lparr>dt = Fin h, tMax = Fin 1, initialConditions = [Fin 0],
    cfg_parameters = Map.empty\<rparr>"
  have v: "validateSolverConfig ?c (test_system reciprocal_equations) = None"
    using assms(1,2) by (simp add: reciprocal_valid)
  have i: "\<not> hasInvalidValues (initialConditions ?c)"
    by (simp add: hasInvalidValues_def)
  have g: "flt (Fin 0) (tMax ?c)" by (simp add: flt_def)
  have s: "rk4Step (equations (test_system reciprocal_equations)) (initialConditions ?c)
      (cfg_parameters ?c) (dt ?c) = Inr [PInf]"
    using assms(3) by (simp add: test_system_def)
  have b: "hasInvalidValues [PInf]" by (simp add: hasInvalidValues_def)
  have "integrate (equations (test_system reciprocal_equations)) (cfg_parameters ?c) (dt ?c) (tMax ?c)
      (max_steps ?c) (initial_vars ?c)
      = Some (Inl (NumericalInstability (toFixed2 (fadd (Fin 0) (dt ?c)))))"
    unfolding initial_vars_def by (rule integrate_unstable [OF g assms(4) s b])
  then show ?thesis
    by (simp add: solveODESafe_def solveODE_valid [OF v i])
qed

text \<open>Rounding between two powers of two, and the time step \<open>2\<^sup>1\<^sup>0\<^sup>2\<^sup>3\<close>.\<close>

lemma rnd_between:
  assumes "power_int 2 lo \<le> a" "a \<le> power_int 2 hi" "- 1074 \<le> lo" "hi < 1024"
  shows "\<exists>p>0. rnd a = Fin p"
proof -
  have a: "0 < a" using assms(1) two_powi_pos [of lo] by linarith
  have lo: "round_mag (power_int 2 lo) = power_int 2 lo"
    using round_mag_exact [of 1 lo] assms(3) by simp
  have hi: "round_mag (power_int 2 hi) = power_int 2 hi"
    using round_mag_exact [of 1 hi] assms(1,2,3) two_powi_le_iff [of lo hi] by simp
  have 1: "power_int 2 lo \<le> round_mag a"
    using round_mag_mono [OF two_powi_pos assms(1)] lo by simp
  have 2: "round_mag a \<le> power_int 2 hi"
    using round_mag_mono [OF a assms(2)] hi by simp
  have "power_int (2::rat) hi < power_int 2 1024"
    using assms(4) by (simp only: two_powi_less_iff)
  then have 3: "round_mag a < 2 ^ 1024" using 2 by simp
  have 4: "0 < round_mag a" using 1 two_powi_pos [of lo] by linarith
  show ?thesis using 3 4 by (simp add: rnd_pos [OF a])
qed

lemma half_pos: "\<exists>p>0. fdiv (Fin (2 ^ 1023)) (Fin 2) = Fin p"
proof -
  have "power_int 2 1022 \<le> (2::rat) ^ 1023 / 2" "(2::rat) ^ 1023 / 2 \<le> power_int 2 1022"
    by simp_all
  from rnd_between [OF this] show ?thesis by (simp add: fdiv_def)
qed

lemma sixth_pos: "\<exists>p>0. fdiv (Fin (2 ^ 1023)) (Fin 6) = Fin p"
proof -
  have "power_int 2 1020 \<le> (2::rat) ^ 1023 / 6" "(2::rat) ^ 1023 / 6 \<le> power_int 2 1021"
    by simp_all
  from rnd_between [OF this] show ?thesis by (simp add: fdiv_def)
qed

lemma signed_zero_step_1:
  assumes "fdiv h (Fin 2) = Fin p" "0 < p" "fdiv h (Fin 6) = Fin q" "0 < q" "h = Fin r" "0 < r"
  shows "rk4Step signed_zero_equations [NZero, NZero] params h = Inr [Fin 0, Fin 0]"
  using assms(2,4,6) unfolding rk4Step_def assms(1,3) unfolding assms(5)
  by (simp add: add_def scale_def signed_zero_equations_def fmul_def Let_def rnd_def)

lemma signed_zero_step_2:
  assumes "fdiv h (Fin 2) = Fin p" "0 < p" "fdiv h (Fin 6) = Fin q" "0 < q" "h = Fin r" "0 < r"
  shows "rk4Step signed_zero_equations [Fin 0, Fin 0] params h = Inr [PInf, PInf]"
  using assms(2,4,6) unfolding rk4Step_def assms(1,3) unfolding assms(5)
  by (simp add: add_def scale_def signed_zero_equations_def fmul_def Let_def rnd_def)

lemma big_time_1: "fadd (Fin 0) (Fin (2 ^ 1023)) = Fin (2 ^ 1023)"
proof -
  have "round_mag (power_int 2 1023) = power_int 2 1023"
    using round_mag_exact [of 1 1023] by simp
  then have "round_mag (2 ^ 1023) = 2 ^ 1023" by simp
  then show ?thesis by (simp add: rnd_pos)
qed

lemma big_time_2: "fadd (Fin (2 ^ 1023)) (Fin (2 ^ 1023)) = PInf"
proof -
  have "round_mag (power_int 2 1024) = power_int 2 1024"
    using round_mag_exact [of 1 1024] by simp
  then have "round_mag (2 ^ 1023 + 2 ^ 1023) = 2 ^ 1024" by simp
  then show ?thesis by (simp add: rnd_pos)
qed

lemma big_cap: "fadd (fceil (fdiv (Fin (3 * 2 ^ 1022)) (Fin (2 ^ 1023)))) (Fin 1) = Fin 3"
proof -
  have "(3 * 2 ^ 1022 :: rat) / 2 ^ 1023 = 3 / 2" by simp
  then have "fdiv (Fin (3 * 2 ^ 1022)) (Fin (2 ^ 1023)) = rnd (3 / 2)" by (simp add: fdiv_def)
  then show ?thesis by (simp add: float_eval)
qed

lemma signed_zero_overflow:
  "solveODESafe signed_zero_system
     \<lparr>dt = Fin (2 ^ 1023), tMax = Fin (3 * 2 ^ 1022), initialConditions = [NZero, NZero],
      cfg_parameters = Map.empty\<rparr>
   = Some (Failure (NumericalInstability (Shortest PInf)))"
proof -
  let ?h = "Fin (2 ^ 1023)"
  let ?c = "\<lparr>dt = ?h, tMax = Fin (3 * 2 ^ 1022), initialConditions = [NZero, NZero],
    cfg_parameters = Map.empty\<rparr>"
  let ?f = signed_zero_equations
  have v: "validateSolverConfig ?c signed_zero_system = None"
    by (simp add: validateSolverConfig_def signed_zero_system_def fle_def fgt_def flt_def)
  have i: "\<not> hasInvalidValues (initialConditions ?c)"
    by (simp add: hasInvalidValues_def)
  have m: "max_steps ?c = Fin 3"
    unfolding max_steps_def by (simp only: SolverConfig.select_convs big_cap)
  obtain p q where pq: "fdiv ?h (Fin 2) = Fin p" "0 < p" "fdiv ?h (Fin 6) = Fin q" "0 < q"
    using half_pos sixth_pos by blast
  have r: "?h = Fin (2 ^ 1023)" "0 < (2::rat) ^ 1023" by simp_all
  note s1 = signed_zero_step_1 [OF pq r, of Map.empty]
  note s2 = signed_zero_step_2 [OF pq r, of Map.empty]
  have "integrate ?f Map.empty ?h (Fin (3 * 2 ^ 1022)) (Fin 3)
      (Fin 0, [NZero, NZero], Fin 0, [\<lparr>pt_t = Fin 0, pt_state = [NZero, NZero]\<rparr>])
    = integrate ?f Map.empty ?h (Fin (3 * 2 ^ 1022)) (Fin 3)
      (fadd (Fin 0) ?h, [Fin 0, Fin 0], fadd (Fin 0) (Fin 1),
       [\<lparr>pt_t = Fin 0, pt_state = [NZero, NZero]\<rparr>]
         @ [\<lparr>pt_t = fadd (Fin 0) ?h, pt_state = [Fin 0, Fin 0]\<rparr>])"
    by (rule integrate_step [OF _ _ s1])
      (simp_all add: flt_def hasInvalidValues_def max_array_length_def)
  also have "\<dots> = Some (Inl (NumericalInstability (toFixed2 (fadd (fadd (Fin 0) ?h) ?h))))"
    unfolding big_time_1
    by (rule integrate_unstable [OF _ _ s2])
      (simp_all add: flt_def hasInvalidValues_def float_eval)
  finally have "integrate (equations signed_zero_system) (cfg_parameters ?c) (dt ?c) (tMax ?c)
      (max_steps ?c) (initial_vars ?c) = Some (Inl (NumericalInstability (Shortest PInf)))"
    unfolding m initial_vars_def big_time_1 big_time_2
    by (simp add: signed_zero_system_def to_string_def)
  then show ?thesis
    unfolding solveODESafe_def solveODE_valid [OF v i] by simp
qed

lemma reaches_nonneg:
  assumes "reaches f params (Fin d) tmax ms v v'" "0 < d" "nonneg_double (fst v)"
  shows "nonneg_double (fst v')"
  using assms
proof (induction rule: reaches.induct)
  case (reaches_step v t state stepCount pts state')
  then show ?case using nonneg_double_fadd [of t tmax d] by simp
qed simp

text \<open>
  C5, as the code has it.  When the loop, after some number of complete iterations from
  a valid configuration, is at time \<open>t\<close> with the loop condition true, and the RK4 step from
  there gives a state with a non-finite element, then the run ends with the failure
  whose message holds \<^verbatim>\<open>(t + dt).toFixed(2)\<close>: the time of the non-finite state, printed
  with two decimals.  Here \<open>t\<close> is the time of the last point, which is finite; \<open>t\<close> is
  finite, not negative and less than \<open>tMax\<close>, and \<open>t + dt\<close> is not less than \<open>t\<close>.  A failure
  carries a message and nothing else; the points gathered so far are dropped.
\<close>

theorem numerical_instability_reported:
  assumes "validateSolverConfig c s = None" "\<not> hasInvalidValues (initialConditions c)"
    and "reaches (equations s) (cfg_parameters c) (dt c) (tMax c) (max_steps c)
           (initial_vars c) (t, state, stepCount, pts)"
    and "flt t (tMax c)" "flt stepCount (max_steps c)"
    and "rk4Step (equations s) state (cfg_parameters c) (dt c) = Inr state'"
    and "hasInvalidValues state'"
  shows "solveODESafe s c
           = Some (Failure (NumericalInstability (toFixed2 (fadd t (dt c))))) \<and>
         last pts = \<lparr>pt_t = t, pt_state = state\<rparr> \<and> \<not> hasInvalidValues state \<and>
         isFinite t \<and> fle (Fin 0) t \<and> fle t (fadd t (dt c))"
proof -
  have "integrate (equations s) (cfg_parameters c) (dt c) (tMax c) (max_steps c) (initial_vars c)
      = Some (Inl (NumericalInstability (toFixed2 (fadd t (dt c)))))"
    using reaches_integrate [OF assms(3)] integrate_unstable [OF assms(4-7)] by simp
  then have 1: "solveODESafe s c
      = Some (Failure (NumericalInstability (toFixed2 (fadd t (dt c)))))"
    by (simp add: solveODESafe_def solveODE_valid [OF assms(1,2)])
  have 2: "pts \<noteq> [] \<and> last pts = \<lparr>pt_t = t, pt_state = state\<rparr>"
    using reaches_last [OF assms(3)] by (simp add: initial_vars_def)
  have 3: "\<not> hasInvalidValues state"
    using reaches_finite [OF assms(3)] assms(2) by (simp add: initial_vars_def)
  from valid_config [OF assms(1)] obtain d where d: "dt c = Fin d" "0 < d" by blast
  have "nonneg_double (fst (initial_vars c))"
    by (simp add: initial_vars_def nonneg_double_def rnd_def)
  from reaches_nonneg [OF assms(3) [unfolded d] d(2) this]
  have n: "nonneg_double t" by simp
  then obtain a where a: "t = Fin a" "0 \<le> a"
    using assms(4) by (cases t) (auto simp: nonneg_double_def flt_def)
  have 4: "isFinite t \<and> fle (Fin 0) t" using a by (simp add: fle_def)
  from nonneg_double_fadd [OF n assms(4) d(2)]
  have "flt t (fadd t (dt c)) \<or> fadd t (dt c) = t" by (simp add: d)
  then have 5: "fle t (fadd t (dt c))"
    using a by (cases "fadd t (dt c)") (auto simp: flt_def fle_def split: if_splits)
  from 1 2 3 4 5 show ?thesis by simp
qed

text \<open>
  The system \<open>dx/dt = 1/x\<close> started at \<open>x = 0\<close>: the first step gives an infinity, and with
  \<open>dt = 1/4\<close> the message holds the text \<open>0.25\<close>.
\<close>

theorem numerical_instability_reported_witness:
  "solveODESafe (test_system reciprocal_equations)
     \<lparr>dt = Fin (1 / 4), tMax = Fin 1, initialConditions = [Fin 0],
      cfg_parameters = Map.empty\<rparr>
   = Some (Failure (NumericalInstability (Hundredths False 25)))"
proof -
  let ?c = "\<lparr>dt = Fin (1 / 4), tMax = Fin 1,
    initialConditions = [Fin 0],
    cfg_parameters = Map.empty\<rparr>"
  have v: "validateSolverConfig ?c (test_system reciprocal_equations) = None"
    by (simp add: reciprocal_valid)
  have i: "\<not> hasInvalidValues (initialConditions ?c)"
    by (simp add: hasInvalidValues_def)
  have m: "max_steps ?c = Fin 5"
    by (simp add: max_steps_def float_eval)
  have r: "reaches (equations (test_system reciprocal_equations)) (cfg_parameters ?c) (dt ?c) (tMax ?c)
      (max_steps ?c) (initial_vars ?c)
      (Fin 0, initialConditions ?c, Fin 0, [\<lparr>pt_t = Fin 0, pt_state = initialConditions ?c\<rparr>])"
    unfolding initial_vars_def by (rule reaches_start)
  have g: "flt (Fin 0) (tMax ?c)" "flt (Fin 0) (max_steps ?c)"
    unfolding m by (simp_all add: flt_def)
  have s: "rk4Step (equations (test_system reciprocal_equations)) (initialConditions ?c) (cfg_parameters ?c)
      (dt ?c) = Inr [PInf]"
    by (simp add: test_system_def reciprocal_breakdown)
  have b: "hasInvalidValues [PInf]" by (simp add: hasInvalidValues_def)
  have a: "toFixed2 (fadd (Fin 0) (dt ?c)) = Hundredths False 25" by (simp add: float_eval)
  show ?thesis
    using numerical_instability_reported [OF v i r g s b] a by simp
qed

text \<open>
  C5, as the specification states it, fails in three ways.  The reported time need not
  be less than \<open>tMax\<close>: with \<open>dt = tMax = 1\<close> the first step breaks down and the message
  holds \<open>1.00\<close>.  It need not tell the time of the breakdown: with \<open>dt = 1/1024\<close> the first
  step breaks down at \<open>t = 0.0009765625\<close>, and the message holds \<open>0.00\<close>, the text of the
  initial time.  And it need not be finite: with \<open>dt = 2\<^sup>1\<^sup>0\<^sup>2\<^sup>3\<close> and \<open>tMax = 3 \<sqdot> 2\<^sup>1\<^sup>0\<^sup>2\<^sup>2\<close> the
  second step of the system above breaks down, at the time \<open>2\<^sup>1\<^sup>0\<^sup>2\<^sup>3 + 2\<^sup>1\<^sup>0\<^sup>2\<^sup>3\<close>, which is
  \<open>+\<infinity>\<close> in floating point, and the message holds \<open>Infinity\<close>.
\<close>

theorem numerical_instability_at_tMax_counterexample:
  "solveODESafe (test_system reciprocal_equations)
     \<lparr>dt = Fin 1, tMax = Fin 1, initialConditions = [Fin 0], cfg_parameters = Map.empty\<rparr>
   = Some (Failure (NumericalInstability (Hundredths False 100))) \<and>
   \<not> flt (Fin (100 / 100)) (Fin 1) \<and>
   solveODESafe (test_system reciprocal_equations)
     \<lparr>dt = Fin (1 / 1024), tMax = Fin 1, initialConditions = [Fin 0],
      cfg_parameters = Map.empty\<rparr>
   = Some (Failure (NumericalInstability (Hundredths False 0))) \<and>
   toFixed2 (Fin 0) = Hundredths False 0 \<and>
   solveODESafe signed_zero_system
     \<lparr>dt = Fin (2 ^ 1023), tMax = Fin (3 * 2 ^ 1022), initialConditions = [NZero, NZero],
      cfg_parameters = Map.empty\<rparr>
   = Some (Failure (NumericalInstability (Shortest PInf)))"
proof -
  have a: "flt (Fin 0) (max_steps \<lparr>dt = Fin 1, tMax = Fin 1, initialConditions = [Fin 0],
      cfg_parameters = Map.empty\<rparr>)"
    by (simp add: max_steps_def flt_def float_eval)
  have b: "flt (Fin 0) (max_steps \<lparr>dt = Fin (1 / 1024), tMax = Fin 1,
      initialConditions = [Fin 0], cfg_parameters = Map.empty\<rparr>)"
    by (simp add: max_steps_def flt_def float_eval)
  have 1: "toFixed2 (rnd 1) = Hundredths False 100" by (simp add: float_eval)
  have 2: "toFixed2 (rnd (1 / 1024)) = Hundredths False 0" by (simp add: float_eval)
  show ?thesis
    using reciprocal_first_step [OF _ _ reciprocal_breakdown(1) a]
      reciprocal_first_step [OF _ _ reciprocal_breakdown(3) b] signed_zero_overflow
    by (simp add: 1 2 flt_def)
qed

section \<open>The outcome of a run\<close>






end
